theory Spec2Isabelle
  imports Complex_Main "HOL-Library.Sublist"
begin

section \<open>Python values, errors and sequence operations\<close>

text \<open>
  Exceptions are values: a class tag and the text that \<^verbatim>\<open>str(e)\<close> yields.
  Every function that can raise returns \<open>error + 'a\<close>, with \<open>Inl\<close> for the raise.
\<close>

datatype error_kind =
  ValueError | TypeError | IndexError | AssertionError | OSError
  | ValidationError | ExternalError

datatype error = Error error_kind string

fun error_str :: "error \<Rightarrow> string" where
  "error_str (Error k s) = s"

text \<open>
  JSON-like values, for the fields that the source types as \<^verbatim>\<open>Any\<close>
  (document fields, retrieval metadata, the payload of a response). \<open>JOther p\<close> is any
  value of another type (a float, a list, a nested object), carried as the text \<open>p\<close> that
  \<^verbatim>\<open>str\<close> prints for it.
\<close>

datatype jv = JNone | JBool bool | JInt int | JStr string | JOther string

type_synonym pydict = "(string \<times> jv) list"

definition has_key :: "pydict \<Rightarrow> string \<Rightarrow> bool" where
  "has_key d k = (map_of d k \<noteq> None)"

definition dict_get :: "pydict \<Rightarrow> string \<Rightarrow> jv \<Rightarrow> jv" where
  \<comment> \<open>\<^verbatim>\<open>d.get(k, default)\<close>\<close>
  "dict_get d k dflt = (case map_of d k of None \<Rightarrow> dflt | Some v \<Rightarrow> v)"

function nat_str :: "nat \<Rightarrow> string" where
  "nat_str n =
     (if n < 10 then [char_of (48 + n)]
      else nat_str (n div 10) @ [char_of (48 + n mod 10)])"
  by pat_completeness auto
termination
  by (relation "measure id") auto

declare nat_str.simps [simp del]

definition py_str :: "jv \<Rightarrow> string" where
  \<comment> \<open>\<^verbatim>\<open>str(v)\<close>, as an f-string applies it\<close>
  "py_str v =
     (case v of
        JNone \<Rightarrow> ''None''
      | JBool b \<Rightarrow> (if b then ''True'' else ''False'')
      | JInt i \<Rightarrow> (if i < 0 then ''-'' @ nat_str (nat (- i)) else nat_str (nat i))
      | JStr s \<Rightarrow> s
      | JOther p \<Rightarrow> p)"

text \<open>
  \<^verbatim>\<open>xs[a:b]\<close> with Python's treatment of negative and out-of-range bounds.
\<close>

definition slice_bound :: "nat \<Rightarrow> int \<Rightarrow> nat" where
  "slice_bound n i = (if i < 0 then nat (max (int n + i) 0) else min (nat i) n)"

definition py_slice :: "'a list \<Rightarrow> int \<Rightarrow> int \<Rightarrow> 'a list" where
  "py_slice xs a b =
     (let lo = slice_bound (length xs) a; hi = slice_bound (length xs) b
      in take (hi - lo) (drop lo xs))"

text \<open>
  \<^verbatim>\<open>range(start, stop, step)\<close>: a zero step raises \<^verbatim>\<open>ValueError\<close>,
  a positive step counts up while below \<open>stop\<close>, a negative one counts down while above.
\<close>

function range_up :: "int \<Rightarrow> int \<Rightarrow> int \<Rightarrow> int list" where
  "range_up i stop step =
     (if 0 < step \<and> i < stop then i # range_up (i + step) stop step else [])"
  by pat_completeness auto
termination
  by (relation "measure (\<lambda>(i, stop, step). nat (stop - i))") auto

function range_down :: "int \<Rightarrow> int \<Rightarrow> int \<Rightarrow> int list" where
  "range_down i stop step =
     (if step < 0 \<and> stop < i then i # range_down (i + step) stop step else [])"
  by pat_completeness auto
termination
  by (relation "measure (\<lambda>(i, stop, step). nat (i - stop))") auto

declare range_up.simps [simp del] range_down.simps [simp del]

definition py_range :: "int \<Rightarrow> int \<Rightarrow> int \<Rightarrow> error + int list" where
  "py_range start stop step =
     (if step = 0 then Inl (Error ValueError ''range() arg 3 must not be zero'')
      else if 0 < step then Inr (range_up start stop step)
      else Inr (range_down start stop step))"

section \<open>Retrieval pipeline: chunking (rag/pipeline.py)\<close>

text \<open>
  A document is a JSON object. Its text is the \<^verbatim>\<open>content\<close> field, else the
  question/answer rendering, else \<^verbatim>\<open>str(doc)\<close>, the printed form of the whole
  object, which the model carries with the document as \<open>doc_printed\<close>. Slicing and
  \<^verbatim>\<open>len\<close> need a sequence: on \<^verbatim>\<open>None\<close>, a boolean or a number
  \<^verbatim>\<open>len\<close> raises \<^verbatim>\<open>TypeError\<close>, and the model lets it raise on every value
  that is not a string. Strings are lists of characters, one \<open>char\<close> for each character
  that Python counts.
\<close>

record document =
  doc_fields :: pydict
  doc_printed :: string

record chunk =
  chunk_text :: string
  chunk_meta :: pydict

definition doc_text :: "document \<Rightarrow> jv" where
  "doc_text doc =
     (if has_key (doc_fields doc) ''content'' then dict_get (doc_fields doc) ''content'' JNone
      else if has_key (doc_fields doc) ''answer'' then
        JStr (''Q: '' @ py_str (dict_get (doc_fields doc) ''question'' (JStr []))
              @ [CHR 0x0A] @ ''A: '' @ py_str (dict_get (doc_fields doc) ''answer'' JNone))
      else JStr (doc_printed doc))"

definition chunk_metadata :: "document \<Rightarrow> pydict" where
  "chunk_metadata doc =
     [(''doc_type'', dict_get (doc_fields doc) ''doc_type'' (JStr ''unknown'')),
      (''title'', dict_get (doc_fields doc) ''title''
                    (dict_get (doc_fields doc) ''question'' (JStr ''Untitled''))),
      (''product_id'', dict_get (doc_fields doc) ''product_id'' JNone),
      (''category'', dict_get (doc_fields doc) ''category'' JNone)]"

definition chunk_one :: "document \<Rightarrow> string \<Rightarrow> int \<Rightarrow> int \<Rightarrow> error + chunk list" where
  \<comment> \<open>the inner loop: one chunk for each window start \<open>i\<close>\<close>
  "chunk_one doc txt chunk_size overlap =
     (case py_range 0 (int (length txt)) (chunk_size - overlap) of
        Inl e \<Rightarrow> Inl e
      | Inr starts \<Rightarrow>
          Inr (map (\<lambda>i. \<lparr>chunk_text = py_slice txt i (i + chunk_size),
                         chunk_meta = chunk_metadata doc\<rparr>) starts))"

fun chunk_documents :: "document list \<Rightarrow> int \<Rightarrow> int \<Rightarrow> error + chunk list" where
  "chunk_documents [] chunk_size overlap = Inr []"
| "chunk_documents (doc # docs) chunk_size overlap =
     (case doc_text doc of
        JStr txt \<Rightarrow>
          (case chunk_one doc txt chunk_size overlap of
             Inl e \<Rightarrow> Inl e
           | Inr cs \<Rightarrow>
               (case chunk_documents docs chunk_size overlap of
                  Inl e \<Rightarrow> Inl e
                | Inr rest \<Rightarrow> Inr (cs @ rest)))
      | _ \<Rightarrow> Inl (Error TypeError ''object has no len()''))"

definition ceil_div :: "int \<Rightarrow> int \<Rightarrow> int" where
  \<comment> \<open>\<open>ceil (a / b)\<close> for \<open>b > 0\<close>\<close>
  "ceil_div a b = - ((- a) div b)"

section \<open>Vector index (rag/vector_store.py)\<close>

text \<open>
  The store keeps a FAISS \<^verbatim>\<open>IndexFlatL2\<close> next to two parallel Python lists. The FAISS
  index is a library object; the model keeps what the store relies on: the index has a
  fixed dimension \<open>idx_d\<close>, \<^verbatim>\<open>add\<close> appends rows of that dimension and rejects any other
  shape, \<^verbatim>\<open>ntotal\<close> is the number of rows, and \<^verbatim>\<open>search\<close> is the exact scan: all rows
  ranked by squared Euclidean distance, nearest first, rows at equal distance in
  insertion order. Coordinates are \<open>real\<close>: the rounding of \<^verbatim>\<open>float32\<close> is not modelled.
\<close>

record faiss_index =
  idx_d :: nat
  idx_vectors :: "real list list"

definition ntotal :: "faiss_index \<Rightarrow> nat" where
  "ntotal idx = length (idx_vectors idx)"

definition IndexFlatL2 :: "nat \<Rightarrow> faiss_index" where
  "IndexFlatL2 d = \<lparr>idx_d = d, idx_vectors = []\<rparr>"

definition np_array :: "real list list \<Rightarrow> error + real list list" where
  \<comment> \<open>\<^verbatim>\<open>np.array(rows, dtype=np.float32)\<close>: rows of unequal length do not form an array\<close>
  "np_array rows =
     (case rows of
        [] \<Rightarrow> Inr []
      | r # rs \<Rightarrow>
          if list_all (\<lambda>v. length v = length r) rs then Inr rows
          else Inl (Error ValueError ''inhomogeneous shape''))"

definition index_add :: "faiss_index \<Rightarrow> real list list \<Rightarrow> error + faiss_index" where
  "index_add idx rows =
     (if list_all (\<lambda>v. length v = idx_d idx) rows
      then Inr (idx\<lparr>idx_vectors := idx_vectors idx @ rows\<rparr>)
      else Inl (Error AssertionError ''dimension mismatch''))"

definition sq_dist :: "real list \<Rightarrow> real list \<Rightarrow> real" where
  "sq_dist q v = sum_list (map (\<lambda>(a, b). (a - b) * (a - b)) (zip q v))"

definition index_search :: "faiss_index \<Rightarrow> real list \<Rightarrow> int \<Rightarrow> error + (real \<times> nat) list" where
  \<comment> \<open>one query row; the result pairs each distance with the position of its row\<close>
  "index_search idx q k =
     (if length q \<noteq> idx_d idx then Inl (Error AssertionError ''dimension mismatch'')
      else if k \<le> 0 then Inl (Error AssertionError ''k must be positive'')
      else Inr (take (nat k)
                  (sort_key fst
                     (zip (map (sq_dist q) (idx_vectors idx)) [0 ..< ntotal idx]))))"

record 'm vector_store =
  vs_dimension :: int
  vs_index :: faiss_index
  vs_documents :: "string list"
  vs_metadata :: "'m list"
  vs_store_path :: string

definition VectorStore :: "nat \<Rightarrow> string \<Rightarrow> 'm vector_store" where
  \<comment> \<open>the constructor; \<open>path\<close> is the value of \<^verbatim>\<open>VECTOR_STORE_PATH\<close>\<close>
  "VectorStore d path =
     \<lparr>vs_dimension = int d, vs_index = IndexFlatL2 d, vs_documents = [],
      vs_metadata = [], vs_store_path = path\<rparr>"

definition add_documents ::
  "'m vector_store \<Rightarrow> real list list \<Rightarrow> string list \<Rightarrow> 'm list \<Rightarrow> error + 'm vector_store"
where
  "add_documents vs embeddings docs metas =
     (if embeddings = [] \<or> docs = [] then Inr vs
      else
        (case np_array embeddings of
           Inl e \<Rightarrow> Inl e
         | Inr arr \<Rightarrow>
             (case index_add (vs_index vs) arr of
                Inl e \<Rightarrow> Inl e
              | Inr idx \<Rightarrow>
                  Inr (vs\<lparr>vs_index := idx,
                          vs_documents := vs_documents vs @ docs,
                          vs_metadata := vs_metadata vs @ metas\<rparr>))))"

fun collect_results ::
  "string list \<Rightarrow> 'm list \<Rightarrow> (real \<times> nat) list \<Rightarrow> error + (string \<times> 'm \<times> real) list"
where
  "collect_results docs metas [] = Inr []"
| "collect_results docs metas ((distance, idx) # rest) =
     (if idx < length docs then
        (if idx < length metas then
           (case collect_results docs metas rest of
              Inl e \<Rightarrow> Inl e
            | Inr rs \<Rightarrow> Inr ((docs ! idx, metas ! idx, distance) # rs))
         else Inl (Error IndexError ''list index out of range''))
      else collect_results docs metas rest)"

definition search ::
  "'m vector_store \<Rightarrow> real list \<Rightarrow> int \<Rightarrow> error + (string \<times> 'm \<times> real) list"
where
  "search vs query_embedding top_k =
     (if ntotal (vs_index vs) = 0 then Inr []
      else
        (case index_search (vs_index vs) query_embedding
                (min top_k (int (ntotal (vs_index vs)))) of
           Inl e \<Rightarrow> Inl e
         | Inr hits \<Rightarrow> collect_results (vs_documents vs) (vs_metadata vs) hits))"

text \<open>
  The directory at \<open>store_path\<close> holds two files. A file is missing, unreadable (reading
  it raises) or stores a value; \<^verbatim>\<open>faiss.write_index\<close> and \<^verbatim>\<open>pickle.dump\<close> store exactly
  the object they are given. \<open>save\<close> takes the answer of the file system: when a write is
  refused the exception is logged and raised again.
\<close>

datatype 'a disk_file = Missing | Unreadable | Stored 'a

record 'm store_dir =
  index_file :: "faiss_index disk_file"
  data_file :: "(string list \<times> 'm list \<times> int) disk_file"

type_synonym 'm disk = "string \<Rightarrow> 'm store_dir"

definition save :: "bool \<Rightarrow> 'm vector_store \<Rightarrow> 'm disk \<Rightarrow> error + 'm disk" where
  "save writable vs fs =
     (if writable then
        Inr (fs (vs_store_path vs :=
               \<lparr>index_file = Stored (vs_index vs),
                data_file = Stored (vs_documents vs, vs_metadata vs, vs_dimension vs)\<rparr>))
      else Inl (Error OSError ''cannot write''))"

definition load :: "'m disk \<Rightarrow> 'm vector_store \<Rightarrow> bool \<times> 'm vector_store" where
  "load fs vs =
     (let dir = fs (vs_store_path vs) in
      if index_file dir = Missing \<or> data_file dir = Missing then (False, vs)
      else
        (case index_file dir of
           Stored idx \<Rightarrow>
             (case data_file dir of
                Stored (docs, metas, d) \<Rightarrow>
                  (True, vs\<lparr>vs_index := idx, vs_documents := docs,
                            vs_metadata := metas, vs_dimension := d\<rparr>)
              | _ \<Rightarrow> (False, vs\<lparr>vs_index := idx\<rparr>))
         | _ \<Rightarrow> (False, vs)))"

section \<open>Intent classification (services/llm_service.py, agents/intent_classifier.py)\<close>

text \<open>
  Characters are 8-bit and stand for the code points 0 to 255. \<^verbatim>\<open>lower\<close>,
  \<^verbatim>\<open>strip\<close> and the regular-expression classes \<^verbatim>\<open>\d\<close> and \<^verbatim>\<open>\w\<close> act
  on them as Python does on these code points: the capital letters are A to Z and the
  accented capitals 192 to 222 (without the multiplication sign 215), the decimal digits
  are 0 to 9, and the word characters are the letters, the digits, the underscore and
  the further alphanumeric signs of that range.
\<close>

definition lower_char :: "char \<Rightarrow> char" where
  "lower_char c =
     (let n = (of_char c :: nat)
      in if (65 \<le> n \<and> n \<le> 90) \<or> (192 \<le> n \<and> n \<le> 214) \<or> (216 \<le> n \<and> n \<le> 222)
         then char_of (n + 32) else c)"

definition lower :: "string \<Rightarrow> string" where
  "lower s = map lower_char s"

definition is_space :: "char \<Rightarrow> bool" where
  "is_space c = (let n = (of_char c :: nat) in (9 \<le> n \<and> n \<le> 13) \<or> (28 \<le> n \<and> n \<le> 32) \<or> n = 133 \<or> n = 160)"

definition strip :: "string \<Rightarrow> string" where
  "strip s = rev (dropWhile is_space (rev (dropWhile is_space s)))"

definition is_digit :: "char \<Rightarrow> bool" where
  "is_digit c = (let n = (of_char c :: nat) in 48 \<le> n \<and> n \<le> 57)"

definition is_word_char :: "char \<Rightarrow> bool" where
  "is_word_char c =
     (let n = (of_char c :: nat)
      in (48 \<le> n \<and> n \<le> 57) \<or> (65 \<le> n \<and> n \<le> 90) \<or> n = 95 \<or> (97 \<le> n \<and> n \<le> 122)
         \<or> n = 170 \<or> n = 178 \<or> n = 179 \<or> n = 181 \<or> n = 185 \<or> n = 186
         \<or> (188 \<le> n \<and> n \<le> 190) \<or> (192 \<le> n \<and> n \<le> 214)
         \<or> (216 \<le> n \<and> n \<le> 246) \<or> (248 \<le> n \<and> n \<le> 255))"

definition contains :: "string \<Rightarrow> string \<Rightarrow> bool" where
  \<comment> \<open>\<^verbatim>\<open>word in s\<close>\<close>
  "contains s word = sublist word s"

definition any_in :: "string list \<Rightarrow> string \<Rightarrow> bool" where
  \<comment> \<open>\<^verbatim>\<open>any(word in s for word in words)\<close>\<close>
  "any_in ws s = list_ex (contains s) ws"

definition order_words :: "string list" where
  "order_words = [''order'', ''track'', ''ord-'']"

definition complaint_words :: "string list" where
  "complaint_words =
     [''problem'', ''issue'', ''complaint'', ''broken'', ''damaged'', ''not working'']"

definition refund_words :: "string list" where
  "refund_words = [''refund'', ''return'', ''money back'']"

definition delivery_words :: "string list" where
  "delivery_words = [''delivery'', ''shipping'', ''deliver'', ''when will'']"

definition comparison_words :: "string list" where
  "comparison_words = [''compare'', ''vs'', ''versus'', ''difference between'']"

definition product_words :: "string list" where
  "product_words =
     [''laptop'', ''phone'', ''tv'', ''product'', ''specs'', ''features'', ''price'']"

definition simple_intent_classification :: "string \<Rightarrow> string" where
  "simple_intent_classification message =
     (let message_lower = lower message in
      if any_in order_words message_lower then ''order_status''
      else if any_in complaint_words message_lower then ''complaint''
      else if any_in refund_words message_lower then ''refund''
      else if any_in delivery_words message_lower then ''delivery''
      else if any_in comparison_words message_lower then ''comparison''
      else if any_in product_words message_lower then ''product_info''
      else ''general'')"

text \<open>
  The wording of the specification for the fallback: the categories are tried in a fixed
  order and the first one with a matching keyword wins.
\<close>

definition priority_table :: "(string \<times> string list) list" where
  "priority_table =
     [(''order_status'', order_words), (''complaint'', complaint_words),
      (''refund'', refund_words), (''delivery'', delivery_words),
      (''comparison'', comparison_words), (''product_info'', product_words)]"

definition first_match_spec :: "string \<Rightarrow> string" where
  "first_match_spec message =
     (case find (\<lambda>(intent, ws). any_in ws (lower message)) priority_table of
        Some (intent, ws) \<Rightarrow> intent
      | None \<Rightarrow> ''general'')"

text \<open>
  The external model is a function from a request (the messages and the token limit) to
  the text of the first choice, or to the exception the call raises; a missing API key
  leaves no client.
\<close>

record chat_msg =
  role :: string
  content :: string

type_synonym llm_client = "chat_msg list \<Rightarrow> nat \<Rightarrow> error + string"

definition fallback_response :: string where
  "fallback_response =
     ''I'' @ [CHR 0x27] @ ''m currently operating in limited mode. ''
     @ ''I can help you with product information, orders, and more. ''
     @ ''Please provide your order ID or ask about specific products.''"

definition llm_generate_response ::
  "llm_client option \<Rightarrow> string \<Rightarrow> string \<Rightarrow> nat \<Rightarrow> string"
where
  \<comment> \<open>\<^verbatim>\<open>generate_response\<close> with a system message and no context\<close>
  "llm_generate_response client prompt system_message max_tokens =
     (case client of
        None \<Rightarrow> fallback_response
      | Some c \<Rightarrow>
          (case c [\<lparr>role = ''system'', content = system_message\<rparr>,
                   \<lparr>role = ''user'', content = prompt\<rparr>] max_tokens of
             Inl e \<Rightarrow> fallback_response
           | Inr reply \<Rightarrow> strip reply))"

definition classifier_prompt :: string where
  "classifier_prompt =
     ''You are an intent classifier for an e-commerce chatbot.'' @ [CHR 0x0A]
     @ ''Classify the user'' @ [CHR 0x27] @ ''s message into one of these intents:'' @ [CHR 0x0A]
     @ ''- product_info: Questions about products, features, specifications'' @ [CHR 0x0A]
     @ ''- order_status: Tracking orders, order information'' @ [CHR 0x0A]
     @ ''- complaint: Issues, problems, complaints about products or service'' @ [CHR 0x0A]
     @ ''- refund: Return requests, refund inquiries'' @ [CHR 0x0A]
     @ ''- delivery: Shipping, delivery tracking, delivery issues'' @ [CHR 0x0A]
     @ ''- comparison: Comparing multiple products'' @ [CHR 0x0A]
     @ ''- general: General questions, greetings, other'' @ [CHR 0x0A] @ [CHR 0x0A]
     @ ''Respond with ONLY the intent name, nothing else.''"

definition valid_intents :: "string list" where
  "valid_intents =
     [''product_info'', ''order_status'', ''complaint'',
      ''refund'', ''delivery'', ''comparison'', ''general'']"

definition classify_intent :: "llm_client option \<Rightarrow> string \<Rightarrow> string" where
  \<comment> \<open>\<^verbatim>\<open>generate_response\<close> catches every exception of the call itself, so the
      \<^verbatim>\<open>except\<close> branch of \<^verbatim>\<open>classify_intent\<close> has nothing left to catch\<close>
  "classify_intent client message =
     (case client of
        None \<Rightarrow> simple_intent_classification message
      | Some c \<Rightarrow>
          (let response = llm_generate_response client message classifier_prompt 50;
               intent = lower (strip response)
           in if intent \<notin> set valid_intents then ''general'' else intent))"

text \<open>
  \<^verbatim>\<open>re.findall(r"ORD-\d{4}", message)\<close>: scanning from the left, a match consumes its
  eight characters and the scan goes on behind it; where no match starts, the scan moves
  on by one character.
\<close>

definition order_id_at :: "string \<Rightarrow> bool" where
  \<comment> \<open>the pattern matches at the start of the string\<close>
  "order_id_at s = (prefix ''ORD-'' s \<and> 8 \<le> length s \<and> list_all is_digit (take 4 (drop 4 s)))"

function findall_order_ids :: "string \<Rightarrow> string list" where
  "findall_order_ids s =
     (if s = [] then []
      else if order_id_at s then take 8 s # findall_order_ids (drop 8 s)
      else findall_order_ids (tl s))"
  by pat_completeness auto
termination
  by (relation "measure length") (auto simp: order_id_at_def)

declare findall_order_ids.simps [simp del]

definition extract_order_id :: "string \<Rightarrow> string" where
  "extract_order_id message =
     (case findall_order_ids message of [] \<Rightarrow> [] | m # ms \<Rightarrow> m)"

text \<open>
  \<^verbatim>\<open>re.findall(r"\b\d+\b", message)\<close>: the matches are the maximal runs of word
  characters that consist of digits only.
\<close>

fun word_runs :: "string \<Rightarrow> string \<Rightarrow> string list" where
  "word_runs cur [] = (if cur = [] then [] else [rev cur])"
| "word_runs cur (c # cs) =
     (if is_word_char c then word_runs (c # cur) cs
      else (if cur = [] then [] else [rev cur]) @ word_runs [] cs)"

definition int_of_digits :: "string \<Rightarrow> int" where
  "int_of_digits s = foldl (\<lambda>a c. 10 * a + (int (of_char c) - 48)) 0 s"

definition extract_product_ids :: "string \<Rightarrow> int list" where
  "extract_product_ids message =
     filter (\<lambda>n. 1 \<le> n \<and> n \<le> 100)
       (map int_of_digits (filter (list_all is_digit) (word_runs [] message)))"

section \<open>Handlers and the orchestrator (tools/order_tool.py, agents/orchestrator.py)\<close>

text \<open>
  A handler returns a dict. The record keeps the keys that the orchestrator reads; a key
  that is absent is \<open>None\<close>. Every handler of the repository stores a string under
  \<^verbatim>\<open>message\<close>, so the field is a string where present. The domain fields that only
  travel to the caller (totals, items, dates) are left out.
\<close>

record comparison =
  cmp_products :: "string list"
  cmp_recommendation :: "string option"

record bag =
  bag_success :: "bool option"
  bag_message :: "string option"
  bag_context :: "string option"
  bag_comparison :: "comparison option"
  bag_order_id :: "string option"
  bag_status :: "string option"
  bag_sources :: "jv list option option"
  bag_metadata :: "pydict option"

definition empty_bag :: bag where
  "empty_bag =
     \<lparr>bag_success = None, bag_message = None, bag_context = None, bag_comparison = None,
      bag_order_id = None, bag_status = None, bag_sources = None, bag_metadata = None\<rparr>"

record order =
  order_id :: string
  status :: string
  expected_delivery :: "string option"
  tracking_number :: "string option"

fun get_order :: "order list \<Rightarrow> string \<Rightarrow> order option" where
  "get_order [] oid = None"
| "get_order (ord # rest) oid = (if order_id ord = oid then Some ord else get_order rest oid)"

definition get_order_status :: "order list \<Rightarrow> string \<Rightarrow> bag" where
  "get_order_status orders oid =
     (case get_order orders oid of
        None \<Rightarrow>
          empty_bag\<lparr>bag_success := Some False,
                    bag_message := Some (''Order '' @ oid @ '' not found. Please check the order ID.'')\<rparr>
      | Some ord \<Rightarrow>
          (let msg = ''Order '' @ oid @ '' is currently '' @ status ord @ ''.'';
               msg' = (case expected_delivery ord of
                         None \<Rightarrow> msg
                       | Some d \<Rightarrow> if d = [] then msg else msg @ '' Expected delivery: '' @ d)
           in empty_bag\<lparr>bag_success := Some True, bag_order_id := Some (order_id ord),
                        bag_status := Some (status ord), bag_message := Some msg'\<rparr>))"

text \<open>
  The collaborators of the orchestrator. Retrieval (embedding plus index search), the
  complaint, refund and delivery tools and the graph comparison answer with a result or
  with the exception they raise.
\<close>

record env =
  llm :: "llm_client option"
  orders :: "order list"
  retrieve :: "string \<Rightarrow> int \<Rightarrow> error + (string \<times> pydict \<times> real) list"
  create_complaint :: "string \<Rightarrow> string \<Rightarrow> string \<Rightarrow> error + bag"
  initiate_refund :: "string \<Rightarrow> string \<Rightarrow> error + bag"
  get_refund_status :: "string \<Rightarrow> error + bag"
  get_delivery_status :: "string \<Rightarrow> error + bag"
  compare_products :: "int list \<Rightarrow> error + comparison"

text \<open>
  The state of the orchestrator: the conversations (a \<^verbatim>\<open>defaultdict(list)\<close>, so an
  unknown session reads as the empty list) and \<open>max_history\<close>. \<open>composed\<close> is a trace
  added by the model: the message lists handed to \<^verbatim>\<open>generate_with_history\<close>, in order.
\<close>

record orch =
  conversations :: "string \<Rightarrow> chat_msg list"
  max_history :: nat
  composed :: "chat_msg list list"

definition init_orch :: orch where
  "init_orch = \<lparr>conversations = (\<lambda>sid. []), max_history = 10, composed = []\<rparr>"

definition last_n :: "nat \<Rightarrow> 'a list \<Rightarrow> 'a list" where
  \<comment> \<open>\<^verbatim>\<open>xs[-n:]\<close>; with \<open>n = 0\<close> the slice is \<^verbatim>\<open>xs[0:]\<close>, the whole list\<close>
  "last_n n xs = (if n = 0 then xs else drop (length xs - n) xs)"

definition add_to_history :: "orch \<Rightarrow> string \<Rightarrow> string \<Rightarrow> string \<Rightarrow> orch" where
  "add_to_history st sid r c =
     (let log = conversations st sid @ [\<lparr>role = r, content = c\<rparr>];
          log' = (if length log > max_history st * 2 then last_n (max_history st * 2) log
                  else log)
      in st\<lparr>conversations := (conversations st)(sid := log')\<rparr>)"

definition get_recent_history :: "orch \<Rightarrow> string \<Rightarrow> nat \<Rightarrow> chat_msg list" where
  "get_recent_history st sid max_messages =
     (let history = conversations st sid
      in if length history > max_messages then last_n max_messages history else history)"

fun join :: "string \<Rightarrow> string list \<Rightarrow> string" where
  "join sep [] = []"
| "join sep [x] = x"
| "join sep (x # y # ys) = x @ sep @ join sep (y # ys)"

definition title_of :: "string \<Rightarrow> pydict \<Rightarrow> jv" where
  "title_of dflt meta = dict_get meta ''title'' (JStr dflt)"

definition handle_product_info :: "env \<Rightarrow> string \<Rightarrow> error + bag" where
  "handle_product_info e message =
     (case retrieve e message 3 of
        Inl err \<Rightarrow> Inl err
      | Inr results \<Rightarrow>
          (let context_parts = map fst results;
               srcs = map (\<lambda>(t, meta, score). title_of ''Product Information'' meta) results;
               ctx = (if context_parts \<noteq> [] then join [CHR 0x0A, CHR 0x0A] context_parts
                      else ''No specific information found.'')
           in Inr (empty_bag\<lparr>bag_context := Some ctx, bag_sources := Some (Some srcs),
                     bag_metadata := Some [(''num_results'', JInt (int (length results)))]\<rparr>)))"

definition clarification :: "string \<Rightarrow> bag" where
  "clarification purpose =
     empty_bag\<lparr>bag_success := Some False,
               bag_message := Some (''Please provide your order ID (format: ORD-XXXX) to ''
                                    @ purpose @ ''.'')\<rparr>"

definition handle_order_status :: "env \<Rightarrow> string \<Rightarrow> error + bag" where
  "handle_order_status e message =
     (let oid = extract_order_id message
      in if oid = [] then Inr (clarification ''check status'')
         else Inr (get_order_status (orders e) oid))"

definition handle_complaint :: "env \<Rightarrow> string \<Rightarrow> error + bag" where
  "handle_complaint e message =
     (let oid = extract_order_id message
      in if oid = [] then Inr (clarification ''file a complaint'')
         else create_complaint e oid ''Product issue'' message)"

definition handle_refund :: "env \<Rightarrow> string \<Rightarrow> error + bag" where
  "handle_refund e message =
     (let oid = extract_order_id message
      in if oid = [] then Inr (clarification ''check refund status'')
         else if any_in [''want'', ''request'', ''initiate'', ''return''] (lower message)
         then initiate_refund e oid ''Customer request''
         else get_refund_status e oid)"

definition handle_delivery :: "env \<Rightarrow> string \<Rightarrow> error + bag" where
  "handle_delivery e message =
     (let oid = extract_order_id message
      in if oid = [] then Inr (clarification ''track delivery'')
         else get_delivery_status e oid)"

definition int_list_str :: "int list \<Rightarrow> string" where
  "int_list_str ns = ''['' @ join '', '' (map (\<lambda>n. py_str (JInt n)) ns) @ '']''"

definition handle_comparison :: "env \<Rightarrow> string \<Rightarrow> error + bag" where
  "handle_comparison e message =
     (let product_ids = extract_product_ids message
      in if length product_ids < 2 then handle_product_info e message
         else
           (case compare_products e product_ids of
              Inl err \<Rightarrow> Inl err
            | Inr cmp \<Rightarrow>
                Inr (empty_bag\<lparr>bag_comparison := Some cmp,
                       bag_metadata := Some [(''product_ids'', JOther (int_list_str product_ids))]\<rparr>)))"

definition handle_general :: "env \<Rightarrow> string \<Rightarrow> error + bag" where
  "handle_general e message =
     (case retrieve e message 2 of
        Inl err \<Rightarrow> Inl err
      | Inr results \<Rightarrow>
          (let ctx = concat (map (\<lambda>(t, meta, score). t @ [CHR 0x0A, CHR 0x0A]) results);
               srcs = map (\<lambda>(t, meta, score). title_of ''Information'' meta) results
           in Inr (empty_bag\<lparr>bag_context := Some ctx,
                     bag_sources := Some (if srcs \<noteq> [] then Some srcs else None),
                     bag_metadata := Some []\<rparr>)))"

definition route_to_handler :: "env \<Rightarrow> string \<Rightarrow> string \<Rightarrow> error + bag" where
  "route_to_handler e intent message =
     (if intent = ''product_info'' then handle_product_info e message
      else if intent = ''order_status'' then handle_order_status e message
      else if intent = ''complaint'' then handle_complaint e message
      else if intent = ''refund'' then handle_refund e message
      else if intent = ''delivery'' then handle_delivery e message
      else if intent = ''comparison'' then handle_comparison e message
      else handle_general e message)"

definition generate_with_history :: "env \<Rightarrow> orch \<Rightarrow> chat_msg list \<Rightarrow> nat \<Rightarrow> string \<times> orch" where
  "generate_with_history e st messages max_tokens =
     (let st' = st\<lparr>composed := composed st @ [messages]\<rparr>
      in case llm e of
           None \<Rightarrow> (fallback_response, st')
         | Some c \<Rightarrow>
             (case c messages max_tokens of
                Inl err \<Rightarrow> (fallback_response, st')
              | Inr reply \<Rightarrow> (strip reply, st')))"

definition persona :: string where
  "persona =
     ''You are a helpful AI assistant for TechPro Electronics, ''
     @ ''an electronics e-commerce company. Provide accurate, friendly, ''
     @ ''and concise responses. Use the provided context to answer questions. ''
     @ ''If you don'' @ [CHR 0x27] @ ''t have enough information, ask for clarification.''"

definition names_str :: "string list \<Rightarrow> string" where
  \<comment> \<open>the printed form of a list of names; exact for names that need no escaping\<close>
  "names_str ns = ''['' @ join '', '' (map (\<lambda>n. [CHR 0x27] @ n @ [CHR 0x27]) ns) @ '']''"

definition context_parts_of :: "bag \<Rightarrow> string list" where
  "context_parts_of d =
     (case bag_context d of
        None \<Rightarrow> []
      | Some c \<Rightarrow> [''Relevant Information:'' @ [CHR 0x0A] @ c])
     @ (case bag_comparison d of
          None \<Rightarrow> []
        | Some cmp \<Rightarrow>
            if cmp_products cmp \<noteq> [] then
              [''Comparing products: '' @ names_str (cmp_products cmp),
               ''Recommendation: '' @ (case cmp_recommendation cmp of None \<Rightarrow> [] | Some r \<Rightarrow> r)]
            else [])
     @ (case bag_order_id d of None \<Rightarrow> [] | Some oid \<Rightarrow> [''Order ID: '' @ oid])
     @ (case bag_status d of None \<Rightarrow> [] | Some s \<Rightarrow> [''Status: '' @ s])"

definition generate_response ::
  "env \<Rightarrow> orch \<Rightarrow> string \<Rightarrow> string \<Rightarrow> bag \<Rightarrow> string \<Rightarrow> string \<times> orch"
where
  "generate_response e st intent message d sid =
     (case bag_message d of
        Some m \<Rightarrow> (m, st)
      | None \<Rightarrow>
          if bag_success d = Some False then (''I couldn'' @ [CHR 0x27] @ ''t process that request.'', st)
          else
            (let parts = context_parts_of d;
                 ctx = join [CHR 0x0A, CHR 0x0A] parts;
                 history = get_recent_history st sid 6;
                 messages =
                   [\<lparr>role = ''system'', content = persona\<rparr>] @ history
                   @ (if ctx \<noteq> [] then
                        [\<lparr>role = ''system'',
                          content = ''Context for answering:'' @ [CHR 0x0A] @ ctx\<rparr>]
                      else [])
                   @ [\<lparr>role = ''user'', content = message\<rparr>]
             in generate_with_history e st messages 500))"

text \<open>
  \<^verbatim>\<open>ChatResponse\<close> is a pydantic model: \<^verbatim>\<open>sources\<close> is an optional list of strings,
  and constructing the response with any other element raises a validation error.
\<close>

record chat_response =
  resp_response :: string
  resp_intent :: string
  resp_sources :: "string list option"
  resp_metadata :: "pydict option"

fun str_items :: "jv list \<Rightarrow> error + string list" where
  "str_items [] = Inr []"
| "str_items (v # vs) =
     (case v of
        JStr s \<Rightarrow> (case str_items vs of Inl e \<Rightarrow> Inl e | Inr ss \<Rightarrow> Inr (s # ss))
      | _ \<Rightarrow> Inl (Error ValidationError ''sources: str type expected''))"

definition ChatResponse ::
  "string \<Rightarrow> string \<Rightarrow> jv list option \<Rightarrow> pydict option \<Rightarrow> error + chat_response"
where
  "ChatResponse r i srcs meta =
     (case srcs of
        None \<Rightarrow> Inr \<lparr>resp_response = r, resp_intent = i, resp_sources = None, resp_metadata = meta\<rparr>
      | Some vs \<Rightarrow>
          (case str_items vs of
             Inl e \<Rightarrow> Inl e
           | Inr ss \<Rightarrow> Inr \<lparr>resp_response = r, resp_intent = i, resp_sources = Some ss, resp_metadata = meta\<rparr>))"

definition apology :: string where
  "apology =
     ''I apologize, but I encountered an error processing your request. ''
     @ ''Please try again or rephrase your question.''"

definition error_response :: "error \<Rightarrow> chat_response" where
  "error_response err =
     \<lparr>resp_response = apology, resp_intent = ''error'', resp_sources = Some [],
      resp_metadata = Some [(''error'', JStr (error_str err))]\<rparr>"

definition route_and_compose ::
  "env \<Rightarrow> orch \<Rightarrow> string \<Rightarrow> string \<Rightarrow> string \<Rightarrow> chat_response \<times> orch"
where
  \<comment> \<open>steps 2 and 3 of \<^verbatim>\<open>process_message\<close>, the recording of the answer and the
      construction of the response, for an intent that is already known\<close>
  "route_and_compose e st1 intent message sid =
     (case route_to_handler e intent message of
        Inl err \<Rightarrow> (error_response err, st1)
      | Inr response_data \<Rightarrow>
          (let (response_text, st2) = generate_response e st1 intent message response_data sid;
               st3 = add_to_history st2 sid ''assistant'' response_text
           in case ChatResponse response_text intent
                     (case bag_sources response_data of None \<Rightarrow> Some [] | Some s \<Rightarrow> s)
                     (case bag_metadata response_data of None \<Rightarrow> Some [] | Some m \<Rightarrow> Some m) of
                Inl err \<Rightarrow> (error_response err, st3)
              | Inr r \<Rightarrow> (r, st3)))"

definition process_message :: "env \<Rightarrow> orch \<Rightarrow> string \<Rightarrow> string \<Rightarrow> chat_response \<times> orch" where
  "process_message e st message sid =
     (let st1 = add_to_history st sid ''user'' message;
          intent = classify_intent (llm e) message
      in route_and_compose e st1 intent message sid)"

definition to_msg :: "string \<times> string \<Rightarrow> chat_msg" where
  "to_msg p = \<lparr>role = fst p, content = snd p\<rparr>"

definition append_all :: "orch \<Rightarrow> string \<Rightarrow> (string \<times> string) list \<Rightarrow> orch" where
  \<comment> \<open>a sequence of calls of \<^verbatim>\<open>_add_to_history\<close> for one session\<close>
  "append_all st sid msgs = foldl (\<lambda>s p. add_to_history s sid (fst p) (snd p)) st msgs"

section \<open>Concrete scenarios\<close>

definition doc_520 :: document where
  \<comment> \<open>a document of 520 characters: 450 times a, 50 times b, 20 times c\<close>
  "doc_520 =
     \<lparr>doc_fields = [(''content'',
         JStr (replicate 450 (CHR ''a'') @ replicate 50 (CHR ''b'') @ replicate 20 (CHR ''c'')))],
      doc_printed = []\<rparr>"

definition doc_460 :: document where
  "doc_460 = \<lparr>doc_fields = [(''content'', JStr (replicate 460 (CHR ''a'')))], doc_printed = []\<rparr>"

definition chunk_texts :: "error + chunk list \<Rightarrow> error + string list" where
  "chunk_texts r = map_sum id (map chunk_text) r"

definition demo_store :: "string vector_store" where
  \<comment> \<open>three entries of dimension 2; the metadata are plain labels\<close>
  "demo_store =
     \<lparr>vs_dimension = 2,
      vs_index = \<lparr>idx_d = 2, idx_vectors = [[0, 0], [3, 4], [1, 0]]\<rparr>,
      vs_documents = [''alpha'', ''beta'', ''gamma''],
      vs_metadata = [''m0'', ''m1'', ''m2''],
      vs_store_path = ''store''\<rparr>"

definition empty_store :: "string vector_store" where
  "empty_store = VectorStore 2 ''store''"

definition empty_disk :: "string disk" where
  "empty_disk = (\<lambda>path. \<lparr>index_file = Missing, data_file = Missing\<rparr>)"

definition no_tool :: "error + bag" where
  "no_tool = Inl (Error ExternalError ''tool not available'')"

definition offline_env :: env where
  \<comment> \<open>no API key, no orders, an empty retrieval corpus\<close>
  "offline_env =
     \<lparr>llm = None, orders = [],
      retrieve = (\<lambda>q k. Inr []),
      create_complaint = (\<lambda>oid issue description. no_tool),
      initiate_refund = (\<lambda>oid reason. no_tool),
      get_refund_status = (\<lambda>oid. no_tool),
      get_delivery_status = (\<lambda>oid. no_tool),
      compare_products = (\<lambda>ids. Inl (Error ExternalError ''graph not available''))\<rparr>"

definition failing_llm :: llm_client where
  "failing_llm = (\<lambda>messages max_tokens. Inl (Error ExternalError ''connection refused''))"

definition failing_llm_env :: env where
  \<comment> \<open>an API key is set but every call of the external model raises\<close>
  "failing_llm_env = offline_env\<lparr>llm := Some failing_llm\<rparr>"

definition untitled_env :: env where
  \<comment> \<open>retrieval finds one chunk whose document had \<^verbatim>\<open>"title": null\<close>\<close>
  "untitled_env =
     offline_env\<lparr>retrieve :=
       (\<lambda>q k. Inr [(''Our stores open at nine.'', [(''doc_type'', JStr ''faqs''), (''title'', JNone)], 1 / 2)])\<rparr>"

definition broken_retrieval_env :: env where
  "broken_retrieval_env =
     offline_env\<lparr>retrieve := (\<lambda>q k. Inl (Error ExternalError ''embedding service down''))\<rparr>"

definition all_down_env :: env where
  \<comment> \<open>the external model and the embedding service are both out of reach\<close>
  "all_down_env = broken_retrieval_env\<lparr>llm := Some failing_llm\<rparr>"

definition numbered_msgs :: "(string \<times> string) list" where
  \<comment> \<open>23 messages, numbered 0 to 22\<close>
  "numbered_msgs = zip (replicate 23 ''user'') (map nat_str [0 ..< 23])"

section \<open>Chunking: the number of windows and their extent\<close>

lemma cd_step: "0 < step \<Longrightarrow> ceil_div (a + step) step = ceil_div a step + 1"
proof -
  assume s: "0 < step"
  have "(- a + (- 1) * step) div step = (- 1) + (- a) div step"
    using s by (intro div_mult_self1) simp
  then show ?thesis unfolding ceil_div_def by simp
qed

lemma cd_pos: "0 < step \<Longrightarrow> 0 < a \<Longrightarrow> 0 < ceil_div a step"
  unfolding ceil_div_def
  by (smt (verit) neg_imp_zdiv_neg_iff div_neg_pos_less0 zdiv_mono1 div_minus_right)

lemma cd_nonpos: "0 < step \<Longrightarrow> a \<le> 0 \<Longrightarrow> ceil_div a step \<le> 0"
  unfolding ceil_div_def by (simp add: pos_imp_zdiv_nonneg_iff)

lemma range_up_eq:
  "0 < step \<Longrightarrow> range_up i stop step
     = map (\<lambda>j. i + int j * step) [0 ..< nat (ceil_div (stop - i) step)]"
proof (induction i stop step rule: range_up.induct)
  case (1 i stop step)
  show ?case
  proof (cases "i < stop")
    case False
    then have "ceil_div (stop - i) step \<le> 0"
      using 1(2) by (intro cd_nonpos) simp_all
    with False show ?thesis
      by (subst range_up.simps) simp
  next
    case True
    define n where "n = nat (ceil_div (stop - (i + step)) step)"
    have cd: "ceil_div (stop - i) step = ceil_div (stop - (i + step)) step + 1"
      using cd_step [OF 1(2), of "stop - (i + step)"] by simp
    have "0 < ceil_div (stop - i) step"
      using True 1(2) by (intro cd_pos) simp_all
    then have len: "nat (ceil_div (stop - i) step) = Suc n"
      using cd by (simp add: n_def)
    have IH: "range_up (i + step) stop step = map (\<lambda>j. i + step + int j * step) [0 ..< n]"
      using 1(1) True 1(2) by (simp add: n_def)
    have "map (\<lambda>j. i + int j * step) [0 ..< Suc n]
            = i # map (\<lambda>j. i + int j * step) (map Suc [0 ..< n])"
      by (simp only: upt_conv_Cons [of 0 "Suc n"] map_Suc_upt [symmetric]) simp
    also have "\<dots> = i # map (\<lambda>j. i + step + int j * step) [0 ..< n]"
      by (simp add: algebra_simps)
    also have "\<dots> = range_up i stop step"
      using True 1(2) IH by (simp add: range_up.simps [of i])
    finally show ?thesis using len by simp
  qed
qed

lemma py_slice_window:
  "0 \<le> a \<Longrightarrow> 0 \<le> w \<Longrightarrow> py_slice xs a (a + w) = take (nat w) (drop (nat a) xs)"
  unfolding py_slice_def slice_bound_def Let_def
  by (auto simp: min_def nat_add_distrib)

lemma chunk_one_eq:
  assumes "0 \<le> overlap" "overlap < chunk_size"
  shows "chunk_one doc txt chunk_size overlap =
     Inr (map (\<lambda>j. \<lparr>chunk_text = take (nat chunk_size) (drop (j * nat (chunk_size - overlap)) txt),
                    chunk_meta = chunk_metadata doc\<rparr>)
            [0 ..< nat (ceil_div (int (length txt)) (chunk_size - overlap))])"
proof -
  have s: "0 < chunk_size - overlap" using assms by simp
  have "py_slice txt (int j * (chunk_size - overlap)) (int j * (chunk_size - overlap) + chunk_size)
          = take (nat chunk_size) (drop (j * nat (chunk_size - overlap)) txt)" for j
    using assms s by (subst py_slice_window) (simp_all add: nat_mult_distrib)
  then show ?thesis
    using s by (simp add: chunk_one_def py_range_def range_up_eq o_def)
qed

lemma chunk_single_doc:
  assumes "overlap < chunk_size" and "doc_text doc = JStr txt"
  shows "chunk_documents [doc] (int chunk_size) (int overlap) =
     Inr (map (\<lambda>j. \<lparr>chunk_text = take chunk_size (drop (j * (chunk_size - overlap)) txt),
                    chunk_meta = chunk_metadata doc\<rparr>)
            [0 ..< nat (ceil_div (int (length txt)) (int chunk_size - int overlap))])"
proof -
  have "nat (int chunk_size - int overlap) = chunk_size - overlap" by simp
  then show ?thesis
    using assms chunk_one_eq [of "int overlap" "int chunk_size" doc "txt"] by simp
qed

text \<open>
  Claim C1, as the code has it. For a chunk width \<open>W\<close> and an overlap \<open>O < W\<close>, one
  document whose text has length \<open>L\<close> yields \<open>ceil (L / (W - O))\<close> chunks: the window
  starts are the multiples of \<open>W - O\<close> below \<open>L\<close>. Chunk \<open>j\<close> holds the characters from
  \<open>j * (W - O)\<close> up to at most \<open>W\<close> further, so no chunk is longer than \<open>W\<close>. The witness
  is the scenario of the specification: 520 characters with \<open>W = 500\<close> and \<open>O = 50\<close>
  give the two chunks \<open>[0, 500)\<close> and \<open>[450, 520)\<close>.
\<close>

theorem chunk_count_and_windows:
  assumes "overlap < chunk_size" and "doc_text doc = JStr txt"
  shows "\<exists>cs. chunk_documents [doc] (int chunk_size) (int overlap) = Inr cs
           \<and> int (length cs) = ceil_div (int (length txt)) (int chunk_size - int overlap)
           \<and> map chunk_text cs
               = map (\<lambda>j. take chunk_size (drop (j * (chunk_size - overlap)) txt)) [0 ..< length cs]
           \<and> (\<forall>c \<in> set cs. length (chunk_text c) \<le> chunk_size)"
proof -
  let ?n = "nat (ceil_div (int (length txt)) (int chunk_size - int overlap))"
  let ?cs = "map (\<lambda>j. \<lparr>chunk_text = take chunk_size (drop (j * (chunk_size - overlap)) txt),
                    chunk_meta = chunk_metadata doc\<rparr>) [0 ..< ?n]"
  have run: "chunk_documents [doc] (int chunk_size) (int overlap) = Inr ?cs"
    using assms by (rule chunk_single_doc)
  have "0 \<le> ceil_div (int (length txt)) (int chunk_size - int overlap)"
  proof (cases "length txt = 0")
    case True
    then show ?thesis by (simp add: ceil_div_def)
  next
    case False
    then have "0 < ceil_div (int (length txt)) (int chunk_size - int overlap)"
      using assms(1) by (intro cd_pos) simp_all
    then show ?thesis by simp
  qed
  then have len: "int (length ?cs) = ceil_div (int (length txt)) (int chunk_size - int overlap)"
    by simp
  have texts: "map chunk_text ?cs
      = map (\<lambda>j. take chunk_size (drop (j * (chunk_size - overlap)) txt)) [0 ..< length ?cs]"
    by (simp add: o_def)
  have bound: "\<forall>c \<in> set ?cs. length (chunk_text c) \<le> chunk_size"
    by auto
  from run len texts bound show ?thesis by blast
qed

theorem chunk_count_and_windows_witness:
  "(50::nat) < 500
   \<and> doc_text doc_520
       = JStr (replicate 450 (CHR ''a'') @ replicate 50 (CHR ''b'') @ replicate 20 (CHR ''c''))
   \<and> chunk_texts (chunk_documents [doc_520] 500 50)
       = Inr [replicate 450 (CHR ''a'') @ replicate 50 (CHR ''b''),
              replicate 50 (CHR ''b'') @ replicate 20 (CHR ''c'')]"
proof -
  have t: "doc_text doc_520
       = JStr (replicate 450 (CHR ''a'') @ replicate 50 (CHR ''b'') @ replicate 20 (CHR ''c''))"
    by (simp add: doc_text_def doc_520_def has_key_def dict_get_def)
  have lt: "(50::nat) < 500" by simp
  have two: "[0 ..< 2] = [0, Suc 0]" by code_simp
  obtain cs where run: "chunk_documents [doc_520] (int 500) (int 50) = Inr cs"
    and len: "int (length cs) = ceil_div (int (length (replicate 450 (CHR ''a'')
                 @ replicate 50 (CHR ''b'') @ replicate 20 (CHR ''c'')))) (int 500 - int 50)"
    and texts: "map chunk_text cs
       = map (\<lambda>j. take 500 (drop (j * (500 - 50))
            (replicate 450 (CHR ''a'') @ replicate 50 (CHR ''b'') @ replicate 20 (CHR ''c''))))
           [0 ..< length cs]"
    using chunk_count_and_windows [OF lt t] by blast
  from len have "length cs = 2" by (simp add: ceil_div_def)
  with texts have "map chunk_text cs
       = [replicate 450 (CHR ''a'') @ replicate 50 (CHR ''b''),
          replicate 50 (CHR ''b'') @ replicate 20 (CHR ''c'')]"
    by (simp add: two)
  with run t show ?thesis by (simp add: chunk_texts_def)
qed

text \<open>
  The count stated in the specification, \<open>ceil ((L - O) / (W - O))\<close>, is not the number of
  chunks: a text of 460 characters with \<open>W = 500\<close> and \<open>O = 50\<close> has window starts 0 and
  450, hence two chunks, where the formula gives one.
\<close>

theorem chunk_count_counterexample:
  "map_sum id length (chunk_documents [doc_460] 500 50) = Inr 2
   \<and> doc_text doc_460 = JStr (replicate 460 (CHR ''a''))
   \<and> ceil_div (460 - 50) (500 - 50) = 1"
proof -
  have t: "doc_text doc_460 = JStr (replicate 460 (CHR ''a''))"
    by (simp add: doc_text_def doc_460_def has_key_def dict_get_def)
  have lt: "(50::nat) < 500" by simp
  have "chunk_documents [doc_460] (int 500) (int 50)
     = Inr (map (\<lambda>j. \<lparr>chunk_text = take 500 (drop (j * (500 - 50)) (replicate 460 (CHR ''a''))),
                    chunk_meta = chunk_metadata doc_460\<rparr>)
            [0 ..< nat (ceil_div (int (length (replicate 460 (CHR ''a'')))) (int 500 - int 50))])"
    using chunk_single_doc [OF lt t] .
  then have "map_sum id length (chunk_documents [doc_460] 500 50) = Inr 2"
    by (simp add: ceil_div_def)
  with t show ?thesis by (simp add: ceil_div_def)
qed

section \<open>Vector index: insertion, search, persistence\<close>

subsection \<open>Insertion\<close>

text \<open>
  Claim C2, as the code has it. \<open>add_documents\<close> returns at once, leaving the index, the
  texts and the metadata as they were, whenever the list of embeddings or the list of
  texts is empty.
\<close>

theorem add_documents_rejects_empty:
  "embeddings = [] \<or> docs = [] \<Longrightarrow> add_documents vs embeddings docs metas = Inr vs"
  by (simp add: add_documents_def)

theorem add_documents_rejects_empty_witness:
  "(([] :: real list list) = [] \<or> [''alpha''] = [])
   \<and> add_documents demo_store [] [''alpha''] [''m0''] = Inr demo_store"
  using add_documents_rejects_empty [of "[]" "[''alpha'']" demo_store "[''m0'']"] by simp

text \<open>
  The three lists are not compared: one embedding with two texts and no metadata is
  accepted, and the store then holds one vector, two texts and no metadata.
\<close>

theorem add_documents_unequal_counterexample:
  "add_documents empty_store [[1, 2]] [''alpha'', ''beta''] []
     = Inr \<lparr>vs_dimension = 2,
            vs_index = \<lparr>idx_d = 2, idx_vectors = [[1, 2]]\<rparr>,
            vs_documents = [''alpha'', ''beta''],
            vs_metadata = [],
            vs_store_path = ''store''\<rparr>"
  by (simp add: add_documents_def empty_store_def VectorStore_def IndexFlatL2_def
        np_array_def index_add_def)

subsection \<open>Search\<close>

lemma index_search_props:
  assumes "index_search idx q k = Inr hits"
  shows "length hits \<le> min (nat k) (ntotal idx)" and "sorted (map fst hits)"
proof -
  from assms have hits: "hits = take (nat k)
       (sort_key fst (zip (map (sq_dist q) (idx_vectors idx)) [0 ..< ntotal idx]))"
    by (auto simp: index_search_def split: if_splits)
  show "length hits \<le> min (nat k) (ntotal idx)"
    by (simp add: hits ntotal_def)
  have "sorted (map fst (sort_key fst (zip (map (sq_dist q) (idx_vectors idx)) [0 ..< ntotal idx])))"
    by (rule sorted_sort_key)
  then show "sorted (map fst hits)"
    unfolding hits take_map [symmetric] by (rule sorted_wrt_take)
qed

lemma collect_results_props:
  "collect_results docs metas hits = Inr rs \<Longrightarrow>
     length rs \<le> length hits
     \<and> set (map (\<lambda>r. snd (snd r)) rs) \<subseteq> set (map fst hits)
     \<and> (sorted (map fst hits) \<longrightarrow> sorted (map (\<lambda>r. snd (snd r)) rs))"
proof (induction docs metas hits arbitrary: rs rule: collect_results.induct)
  case (1 docs metas)
  then show ?case by simp
next
  case (2 docs metas distance idx rest)
  show ?case
  proof (cases "idx < length docs")
    case False
    with 2 show ?thesis by (auto simp: le_SucI)
  next
    case True
    with "2.prems" obtain rs' where
      rest: "collect_results docs metas rest = Inr rs'" and
      rs: "rs = (docs ! idx, metas ! idx, distance) # rs'" and m: "idx < length metas"
      by (auto split: if_splits sum.splits)
    from "2.IH"(1) [OF True m rest] have
      l: "length rs' \<le> length rest" and
      sub: "set (map (\<lambda>r. snd (snd r)) rs') \<subseteq> set (map fst rest)" and
      srt: "sorted (map fst rest) \<longrightarrow> sorted (map (\<lambda>r. snd (snd r)) rs')"
      by simp_all
    have "sorted (map (\<lambda>r. snd (snd r)) rs)" if s: "sorted (map fst ((distance, idx) # rest))"
    proof -
      from s have le: "\<forall>y \<in> set (map fst rest). distance \<le> y" and s': "sorted (map fst rest)"
        by simp_all
      from le sub have "\<forall>y \<in> set (map (\<lambda>r. snd (snd r)) rs'). distance \<le> y" by blast
      with srt s' show ?thesis by (simp add: rs)
    qed
    with l sub show ?thesis by (auto simp: rs)
  qed
qed

lemma collect_results_total:
  "length docs \<le> length metas \<Longrightarrow> \<exists>rs. collect_results docs metas hits = Inr rs"
  by (induction docs metas hits rule: collect_results.induct) auto

text \<open>
  Claim C5. On an index without entries \<open>search\<close> returns the empty list. Whatever it
  returns has at most \<open>min k entryCount\<close> results (a negative \<open>k\<close> counting as zero), and
  the distances of the results never decrease along the list. It does return whenever
  \<open>k\<close> is positive, the query has the dimension of the index and there is metadata for
  every stored text.
\<close>

theorem search_bounded_sorted:
  "(ntotal (vs_index vs) = 0 \<longrightarrow> search vs q k = Inr [])
   \<and> (\<forall>rs. search vs q k = Inr rs \<longrightarrow>
         length rs \<le> min (nat k) (ntotal (vs_index vs))
         \<and> sorted (map (\<lambda>r. snd (snd r)) rs))
   \<and> (0 < k \<and> length q = idx_d (vs_index vs)
        \<and> length (vs_documents vs) \<le> length (vs_metadata vs)
       \<longrightarrow> (\<exists>rs. search vs q k = Inr rs))"
proof (intro conjI impI allI)
  assume "ntotal (vs_index vs) = 0"
  then show "search vs q k = Inr []" by (simp add: search_def)
next
  fix rs assume r: "search vs q k = Inr rs"
  show "length rs \<le> min (nat k) (ntotal (vs_index vs))"
  proof (cases "ntotal (vs_index vs) = 0")
    case True
    with r show ?thesis by (simp add: search_def)
  next
    case False
    with r obtain hits where
      h: "index_search (vs_index vs) q (min k (int (ntotal (vs_index vs)))) = Inr hits" and
      c: "collect_results (vs_documents vs) (vs_metadata vs) hits = Inr rs"
      by (auto simp: search_def split: sum.splits)
    from index_search_props(1) [OF h] collect_results_props [OF c]
    show ?thesis by auto
  qed
  show "sorted (map (\<lambda>r. snd (snd r)) rs)"
  proof (cases "ntotal (vs_index vs) = 0")
    case True
    with r show ?thesis by (simp add: search_def)
  next
    case False
    with r obtain hits where
      h: "index_search (vs_index vs) q (min k (int (ntotal (vs_index vs)))) = Inr hits" and
      c: "collect_results (vs_documents vs) (vs_metadata vs) hits = Inr rs"
      by (auto simp: search_def split: sum.splits)
    from index_search_props(2) [OF h] collect_results_props [OF c]
    show ?thesis by simp
  qed
next
  assume a: "0 < k \<and> length q = idx_d (vs_index vs)
        \<and> length (vs_documents vs) \<le> length (vs_metadata vs)"
  show "\<exists>rs. search vs q k = Inr rs"
  proof (cases "ntotal (vs_index vs) = 0")
    case True
    then show ?thesis by (simp add: search_def)
  next
    case False
    with a have "\<exists>hits. index_search (vs_index vs) q (min k (int (ntotal (vs_index vs)))) = Inr hits"
      by (simp add: index_search_def min_def)
    then obtain hits where
      h: "index_search (vs_index vs) q (min k (int (ntotal (vs_index vs)))) = Inr hits" ..
    from a collect_results_total [of "vs_documents vs" "vs_metadata vs" hits]
    obtain rs where "collect_results (vs_documents vs) (vs_metadata vs) hits = Inr rs" by blast
    with h False show ?thesis by (simp add: search_def)
  qed
qed

lemma demo_search:
  "search demo_store [0, 0] 2 = Inr [(''alpha'', ''m0'', 0), (''gamma'', ''m2'', 1)]"
  by (simp add: search_def demo_store_def ntotal_def index_search_def sq_dist_def
        upt_rec [of 0] upt_rec [of 1] upt_rec [of 2] upt_rec [of 3])

theorem search_bounded_sorted_witness:
  "ntotal (vs_index empty_store) = 0
   \<and> search empty_store [0, 0] 2 = Inr []
   \<and> search demo_store [0, 0] 2 = Inr [(''alpha'', ''m0'', 0), (''gamma'', ''m2'', 1)]
   \<and> length [(''alpha'', ''m0'', 0::real), (''gamma'', ''m2'', 1)]
        \<le> min (nat 2) (ntotal (vs_index demo_store))
   \<and> sorted (map (\<lambda>r. snd (snd r)) [(''alpha'', ''m0'', 0::real), (''gamma'', ''m2'', 1)])"
proof -
  have e: "ntotal (vs_index empty_store) = 0"
    by (simp add: empty_store_def VectorStore_def IndexFlatL2_def ntotal_def)
  from search_bounded_sorted [of empty_store "[0, 0]" 2] e
  have 1: "search empty_store [0, 0] 2 = Inr []" by blast
  from search_bounded_sorted [of demo_store "[0, 0]" 2] demo_search
  have 2: "length [(''alpha'', ''m0'', 0::real), (''gamma'', ''m2'', 1)]
        \<le> min (nat 2) (ntotal (vs_index demo_store))
     \<and> sorted (map (\<lambda>r. snd (snd r)) [(''alpha'', ''m0'', 0::real), (''gamma'', ''m2'', 1)])"
    by blast
  from e 1 2 demo_search show ?thesis by blast
qed

subsection \<open>Saving and loading\<close>

text \<open>
  Claim C6. After a successful \<open>save\<close>, \<open>load\<close> into any store that uses the same path
  succeeds and restores index, texts, metadata and dimension, so that every search gives
  the same result, in the same order, as before the save.
\<close>

theorem save_load_roundtrip:
  assumes "save writable vs fs = Inr fs'" and "vs_store_path vs0 = vs_store_path vs"
  shows "\<exists>vs'. load fs' vs0 = (True, vs')
           \<and> vs_index vs' = vs_index vs \<and> vs_documents vs' = vs_documents vs
           \<and> vs_metadata vs' = vs_metadata vs \<and> vs_dimension vs' = vs_dimension vs
           \<and> (\<forall>q k. search vs' q k = search vs q k)"
proof -
  from assms(1) have fs': "fs' = fs (vs_store_path vs :=
               \<lparr>index_file = Stored (vs_index vs),
                data_file = Stored (vs_documents vs, vs_metadata vs, vs_dimension vs)\<rparr>)"
    by (auto simp: save_def split: if_splits)
  let ?vs' = "vs0\<lparr>vs_index := vs_index vs, vs_documents := vs_documents vs,
                   vs_metadata := vs_metadata vs, vs_dimension := vs_dimension vs\<rparr>"
  have "load fs' vs0 = (True, ?vs')"
    using assms(2) by (simp add: load_def fs')
  moreover have "search ?vs' q k = search vs q k" for q k
    by (simp add: search_def cong: sum.case_cong)
  ultimately show ?thesis by simp
qed

theorem save_load_roundtrip_witness:
  "save True demo_store empty_disk =
      Inr (empty_disk (''store'' :=
             \<lparr>index_file = Stored (vs_index demo_store),
              data_file = Stored (vs_documents demo_store, vs_metadata demo_store,
                                  vs_dimension demo_store)\<rparr>))
   \<and> vs_store_path empty_store = vs_store_path demo_store
   \<and> load (empty_disk (''store'' :=
             \<lparr>index_file = Stored (vs_index demo_store),
              data_file = Stored (vs_documents demo_store, vs_metadata demo_store,
                                  vs_dimension demo_store)\<rparr>)) empty_store
       = (True, demo_store)
   \<and> search (snd (load (empty_disk (''store'' :=
             \<lparr>index_file = Stored (vs_index demo_store),
              data_file = Stored (vs_documents demo_store, vs_metadata demo_store,
                                  vs_dimension demo_store)\<rparr>)) empty_store)) [0, 0] 2
       = search demo_store [0, 0] 2"
proof -
  let ?fs = "empty_disk (''store'' :=
             \<lparr>index_file = Stored (vs_index demo_store),
              data_file = Stored (vs_documents demo_store, vs_metadata demo_store,
                                  vs_dimension demo_store)\<rparr>)"
  have s: "save True demo_store empty_disk = Inr ?fs"
    by (simp add: save_def demo_store_def)
  have p: "vs_store_path empty_store = vs_store_path demo_store"
    by (simp add: empty_store_def demo_store_def VectorStore_def)
  from save_load_roundtrip [OF s p] obtain vs' where
    l: "load ?fs empty_store = (True, vs')" and
    f: "vs_index vs' = vs_index demo_store" "vs_documents vs' = vs_documents demo_store"
       "vs_metadata vs' = vs_metadata demo_store" "vs_dimension vs' = vs_dimension demo_store" and
    q: "\<forall>q k. search vs' q k = search demo_store q k"
    by blast
  have "load ?fs empty_store = (True, demo_store)"
    by (simp add: load_def empty_store_def demo_store_def VectorStore_def)
  with s p l q show ?thesis by simp
qed

section \<open>Session memory\<close>

lemma add_to_history_log:
  "0 < max_history st \<Longrightarrow>
     conversations (add_to_history st sid r c) sid
       = drop (length (conversations st sid) + 1 - 2 * max_history st)
           (conversations st sid @ [\<lparr>role = r, content = c\<rparr>])"
  by (simp add: add_to_history_def Let_def last_n_def mult.commute)

lemma add_to_history_max [simp]: "max_history (add_to_history st sid r c) = max_history st"
  by (simp add: add_to_history_def Let_def)

lemma append_all_max [simp]: "max_history (append_all st sid msgs) = max_history st"
  unfolding append_all_def by (induction msgs arbitrary: st) simp_all

lemma drop_snoc_drop:
  "drop (length (drop a xs) + 1 - n) (drop a xs @ [x]) = drop (length xs + 1 - n) (xs @ [x])"
  if "a = length xs - n"
proof (cases "length xs \<le> n")
  case True
  with that show ?thesis by simp
next
  case False
  with that show ?thesis by (simp add: Suc_diff_le)
qed

lemma append_all_log:
  assumes "length (conversations st sid) \<le> 2 * max_history st" and "0 < max_history st"
  shows "conversations (append_all st sid msgs) sid
       = drop (length (conversations st sid) + length msgs - 2 * max_history st)
           (conversations st sid @ map to_msg msgs)"
  using assms
proof (induction msgs arbitrary: st rule: rev_induct)
  case Nil
  then show ?case by (simp add: append_all_def)
next
  case (snoc p msgs)
  let ?st = "append_all st sid msgs"
  let ?n = "2 * max_history st"
  have step: "append_all st sid (msgs @ [p]) = add_to_history ?st sid (fst p) (snd p)"
    by (simp add: append_all_def)
  have IH: "conversations ?st sid
       = drop (length (conversations st sid) + length msgs - ?n)
           (conversations st sid @ map to_msg msgs)"
    using snoc by simp
  have "conversations (append_all st sid (msgs @ [p])) sid
      = drop (length (conversations ?st sid) + 1 - ?n) (conversations ?st sid @ [to_msg p])"
    using snoc.prems(2) by (simp add: step add_to_history_log to_msg_def)
  also have "\<dots> = drop (length (conversations st sid @ map to_msg msgs) + 1 - ?n)
                    ((conversations st sid @ map to_msg msgs) @ [to_msg p])"
    unfolding IH by (rule drop_snoc_drop) simp
  finally show ?case by simp
qed

text \<open>
  Claim C7. With a positive \<open>max_history\<close> (it is fixed at 10) the log of a session never
  holds more than \<open>2 * max_history\<close> entries after an append, and after appending
  \<open>2 * max_history + 3\<close> messages to any session the log is exactly the last
  \<open>2 * max_history\<close> of them, in the order of their insertion.
\<close>

theorem history_capped:
  "0 < max_history st \<longrightarrow>
     length (conversations (add_to_history st sid r c) sid) \<le> 2 * max_history st
     \<and> (length msgs = 2 * max_history st + 3
        \<longrightarrow> conversations (append_all st sid msgs) sid = map to_msg (drop 3 msgs)
            \<and> length (conversations (append_all st sid msgs) sid) = 2 * max_history st)"
proof (intro impI conjI)
  assume pos: "0 < max_history st"
  show "length (conversations (add_to_history st sid r c) sid) \<le> 2 * max_history st"
    using pos by (simp add: add_to_history_log)
  assume a: "length msgs = 2 * max_history st + 3"
  then obtain p ps where msgs: "msgs = p # ps" and ps: "length ps = 2 * max_history st + 2"
    by (cases msgs) simp_all
  let ?st1 = "add_to_history st sid (fst p) (snd p)"
  have cap1: "length (conversations ?st1 sid) \<le> 2 * max_history ?st1"
    using pos by (simp add: add_to_history_log)
  have "append_all st sid msgs = append_all ?st1 sid ps"
    by (simp add: msgs append_all_def)
  then have "conversations (append_all st sid msgs) sid
       = drop (length (conversations ?st1 sid) + 2) (conversations ?st1 sid @ map to_msg ps)"
    using append_all_log [OF cap1, of ps] pos ps by simp
  then show lg: "conversations (append_all st sid msgs) sid = map to_msg (drop 3 msgs)"
    by (simp add: drop_map msgs)
  show "length (conversations (append_all st sid msgs) sid) = 2 * max_history st"
    using a by (simp add: lg)
qed

theorem history_capped_witness:
  "0 < max_history init_orch
   \<and> length numbered_msgs = 2 * max_history init_orch + 3
   \<and> conversations (append_all init_orch ''s1'' numbered_msgs) ''s1''
       = map to_msg (drop 3 numbered_msgs)
   \<and> length (conversations (append_all init_orch ''s1'' numbered_msgs) ''s1'') = 20"
proof -
  have 1: "0 < max_history init_orch" by (simp add: init_orch_def)
  have 3: "length numbered_msgs = 2 * max_history init_orch + 3"
    by (simp add: init_orch_def numbered_msgs_def)
  from history_capped [of init_orch "''s1''" "''user''" "''x''" numbered_msgs] 1 3
  have "conversations (append_all init_orch ''s1'' numbered_msgs) ''s1''
       = map to_msg (drop 3 numbered_msgs)
     \<and> length (conversations (append_all init_orch ''s1'' numbered_msgs) ''s1'')
       = 2 * max_history init_orch"
    by blast
  with 1 3 show ?thesis by (simp add: init_orch_def)
qed

section \<open>Intent classification\<close>

lemma first_match_unfold:
  "first_match_spec message =
     (if any_in order_words (lower message) then ''order_status''
      else if any_in complaint_words (lower message) then ''complaint''
      else if any_in refund_words (lower message) then ''refund''
      else if any_in delivery_words (lower message) then ''delivery''
      else if any_in comparison_words (lower message) then ''comparison''
      else if any_in product_words (lower message) then ''product_info''
      else ''general'')"
  by (simp add: first_match_spec_def priority_table_def)

text \<open>
  Claim C8. The keyword fallback is a function of the message text alone, which is also
  what the classifier computes when no external model is configured, and it is the
  first-match rule over the priority order order_status, complaint, refund, delivery,
  comparison, product_info, with general when no keyword occurs.
\<close>

theorem fallback_is_first_match:
  "simple_intent_classification message = first_match_spec message
   \<and> classify_intent None message = simple_intent_classification message"
  by (simp add: simple_intent_classification_def Let_def first_match_unfold classify_intent_def)

lemma lower_example:
  "lower ''I want a REFUND for my broken order'' = ''i want a refund for my broken order''"
  by code_simp

lemma sublist_eval_1: "sublist ''order'' ''i want a refund for my broken order''"
  by (simp add: sublist_Cons_right)

theorem fallback_is_first_match_witness:
  "simple_intent_classification ''I want a REFUND for my broken order'' = ''order_status''
   \<and> first_match_spec ''I want a REFUND for my broken order'' = ''order_status''"
proof -
  have "any_in order_words (lower ''I want a REFUND for my broken order'')"
    unfolding lower_example by (simp add: any_in_def order_words_def contains_def sublist_eval_1)
  then have "first_match_spec ''I want a REFUND for my broken order'' = ''order_status''"
    by (simp add: first_match_unfold)
  with fallback_is_first_match [of "''I want a REFUND for my broken order''"]
  show ?thesis by simp
qed

section \<open>Order identifiers\<close>

lemma order_id_at_Nil [simp]: "\<not> order_id_at []"
  by (simp add: order_id_at_def)

lemma findall_Nil [simp]: "findall_order_ids [] = []"
  by (simp add: findall_order_ids.simps)

lemma findall_empty_iff:
  "findall_order_ids s = [] \<longleftrightarrow> (\<forall>k \<le> length s. \<not> order_id_at (drop k s))"
proof (induction s rule: findall_order_ids.induct)
  case (1 s)
  show ?case
  proof (cases "s = []")
    case True
    then show ?thesis by simp
  next
    case ne: False
    show ?thesis
    proof (cases "order_id_at s")
      case True
      then have "findall_order_ids s \<noteq> []"
        using ne by (simp add: findall_order_ids.simps [of s])
      moreover from True have "\<exists>k \<le> length s. order_id_at (drop k s)"
        by (intro exI [of _ 0]) simp
      ultimately show ?thesis by blast
    next
      case False
      then have eq: "findall_order_ids s = findall_order_ids (tl s)"
        using ne by (simp add: findall_order_ids.simps [of s])
      have "(\<forall>k \<le> length s. \<not> order_id_at (drop k s))
             \<longleftrightarrow> (\<forall>k \<le> length (tl s). \<not> order_id_at (drop k (tl s)))"
      proof
        assume a: "\<forall>k \<le> length s. \<not> order_id_at (drop k s)"
        show "\<forall>k \<le> length (tl s). \<not> order_id_at (drop k (tl s))"
        proof (intro allI impI)
          fix k assume "k \<le> length (tl s)"
          then have "Suc k \<le> length s" using ne by (cases s) simp_all
          with a have "\<not> order_id_at (drop (Suc k) s)" by blast
          then show "\<not> order_id_at (drop k (tl s))" by (simp add: drop_Suc)
        qed
      next
        assume a: "\<forall>k \<le> length (tl s). \<not> order_id_at (drop k (tl s))"
        show "\<forall>k \<le> length s. \<not> order_id_at (drop k s)"
        proof (intro allI impI)
          fix k assume k: "k \<le> length s"
          show "\<not> order_id_at (drop k s)"
          proof (cases k)
            case 0
            with False show ?thesis by simp
          next
            case (Suc j)
            with k have "j \<le> length (tl s)" by simp
            with a have "\<not> order_id_at (drop j (tl s))" by blast
            then show ?thesis by (simp add: Suc drop_Suc)
          qed
        qed
      qed
      with "1.IH"(2) [OF ne False] eq show ?thesis by simp
    qed
  qed
qed

lemma findall_first:
  "findall_order_ids s = x # xs \<Longrightarrow>
     \<exists>k. k + 8 \<le> length s \<and> x = take 8 (drop k s) \<and> order_id_at (drop k s)
         \<and> (\<forall>j < k. \<not> order_id_at (drop j s))"
proof (induction s arbitrary: x xs rule: findall_order_ids.induct)
  case (1 s)
  from "1.prems" have ne: "s \<noteq> []"
    by (auto simp: findall_order_ids.simps [of s])
  show ?case
  proof (cases "order_id_at s")
    case True
    with "1.prems" ne have "x = take 8 s"
      by (simp add: findall_order_ids.simps [of s])
    moreover from True have "8 \<le> length s" by (simp add: order_id_at_def)
    ultimately show ?thesis using True by (intro exI [of _ 0]) simp
  next
    case False
    with "1.prems" ne have "findall_order_ids (tl s) = x # xs"
      by (simp add: findall_order_ids.simps [of s])
    from "1.IH"(2) [OF ne False this] obtain k where
      k: "k + 8 \<le> length (tl s)" "x = take 8 (drop k (tl s))" "order_id_at (drop k (tl s))"
         "\<forall>j < k. \<not> order_id_at (drop j (tl s))"
      by blast
    have "\<not> order_id_at (drop j s)" if "j < Suc k" for j
    proof (cases j)
      case 0
      with False show ?thesis by simp
    next
      case (Suc i)
      with that k(4) show ?thesis by (simp add: drop_Suc)
    qed
    with k(1,2,3) ne show ?thesis
      by (intro exI [of _ "Suc k"]) (simp add: drop_Suc)
  qed
qed

section \<open>The orchestrator\<close>

lemma add_to_history_composed [simp]:
  "composed (add_to_history st sid r c) = composed st"
  by (simp add: add_to_history_def Let_def)

lemma add_to_history_last:
  "conversations (add_to_history st sid r c) sid \<noteq> []
   \<and> last (conversations (add_to_history st sid r c) sid) = \<lparr>role = r, content = c\<rparr>"
  by (simp add: add_to_history_def Let_def last_n_def last_drop)

lemma generate_response_message:
  "bag_message d = Some msg \<Longrightarrow> generate_response e st i message d sid = (msg, st)"
  by (simp add: generate_response_def)

lemma ChatResponse_fields:
  "ChatResponse r i srcs meta = Inr resp \<Longrightarrow> resp_response resp = r \<and> resp_intent resp = i"
  by (auto simp: ChatResponse_def split: option.splits sum.splits)

lemma route_and_compose_message:
  assumes "route_to_handler e i message = Inr d" and "bag_message d = Some msg"
    and "ChatResponse msg i (case bag_sources d of None \<Rightarrow> Some [] | Some s \<Rightarrow> s)
            (case bag_metadata d of None \<Rightarrow> Some [] | Some m \<Rightarrow> Some m) = Inr resp"
  shows "route_and_compose e st i message sid = (resp, add_to_history st sid ''assistant'' msg)"
  using assms by (simp add: route_and_compose_def generate_response_message)

lemma order_question_id: "extract_order_id ''Where is my order ORD-1234?'' = ''ORD-1234''"
  by code_simp

lemma order_question_intent:
  "simple_intent_classification ''Where is my order ORD-1234?'' = ''order_status''"
  by code_simp

text \<open>
  Claim C4. A result bag that carries a message makes \<open>generate_response\<close> return that
  message and leave the state, the trace of composition calls included, as it was. The
  turn then ends with that message as the response and as the recorded assistant turn,
  under the intent that was classified. For the message about order ORD-1234, classified
  as order_status (which the keyword fallback does) with no such order in the store, the
  response is the not-found message of the order tool.
\<close>

theorem message_bag_returned_verbatim:
  "(bag_message d = Some msg \<longrightarrow> generate_response e st i message d sid = (msg, st))
   \<and> (route_to_handler e i message = Inr d \<and> bag_message d = Some msg
        \<and> ChatResponse msg i (case bag_sources d of None \<Rightarrow> Some [] | Some s \<Rightarrow> s)
            (case bag_metadata d of None \<Rightarrow> Some [] | Some m \<Rightarrow> Some m) = Inr resp
       \<longrightarrow> route_and_compose e st i message sid = (resp, add_to_history st sid ''assistant'' msg)
           \<and> resp_response resp = msg \<and> resp_intent resp = i)
   \<and> (classify_intent (llm e) ''Where is my order ORD-1234?'' = ''order_status''
        \<and> get_order (orders e) ''ORD-1234'' = None
       \<longrightarrow> process_message e st ''Where is my order ORD-1234?'' sid
             = (\<lparr>resp_response = ''Order ORD-1234 not found. Please check the order ID.'',
                 resp_intent = ''order_status'', resp_sources = Some [],
                 resp_metadata = Some []\<rparr>,
                add_to_history (add_to_history st sid ''user'' ''Where is my order ORD-1234?'')
                  sid ''assistant'' ''Order ORD-1234 not found. Please check the order ID.''))
   \<and> classify_intent None ''Where is my order ORD-1234?'' = ''order_status''"
proof (intro conjI impI)
  assume "bag_message d = Some msg"
  then show "generate_response e st i message d sid = (msg, st)"
    by (rule generate_response_message)
next
  assume a: "route_to_handler e i message = Inr d \<and> bag_message d = Some msg
        \<and> ChatResponse msg i (case bag_sources d of None \<Rightarrow> Some [] | Some s \<Rightarrow> s)
            (case bag_metadata d of None \<Rightarrow> Some [] | Some m \<Rightarrow> Some m) = Inr resp"
  then show "route_and_compose e st i message sid = (resp, add_to_history st sid ''assistant'' msg)"
    using route_and_compose_message by blast
  from a show "resp_response resp = msg" using ChatResponse_fields by blast
  from a show "resp_intent resp = i" using ChatResponse_fields by blast
next
  assume a: "classify_intent (llm e) ''Where is my order ORD-1234?'' = ''order_status''
        \<and> get_order (orders e) ''ORD-1234'' = None"
  let ?d = "empty_bag\<lparr>bag_success := Some False,
       bag_message := Some (''Order ORD-1234 not found. Please check the order ID.'')\<rparr>"
  have r: "route_to_handler e ''order_status'' ''Where is my order ORD-1234?'' = Inr ?d"
    using a by (simp add: route_to_handler_def handle_order_status_def order_question_id
        get_order_status_def)
  have c: "ChatResponse ''Order ORD-1234 not found. Please check the order ID.'' ''order_status''
            (case bag_sources ?d of None \<Rightarrow> Some [] | Some s \<Rightarrow> s)
            (case bag_metadata ?d of None \<Rightarrow> Some [] | Some m \<Rightarrow> Some m)
          = Inr \<lparr>resp_response = ''Order ORD-1234 not found. Please check the order ID.'',
                 resp_intent = ''order_status'', resp_sources = Some [],
                 resp_metadata = Some []\<rparr>"
    by (simp add: ChatResponse_def empty_bag_def)
  have m: "bag_message ?d = Some ''Order ORD-1234 not found. Please check the order ID.''"
    by simp
  show "process_message e st ''Where is my order ORD-1234?'' sid
             = (\<lparr>resp_response = ''Order ORD-1234 not found. Please check the order ID.'',
                 resp_intent = ''order_status'', resp_sources = Some [],
                 resp_metadata = Some []\<rparr>,
                add_to_history (add_to_history st sid ''user'' ''Where is my order ORD-1234?'')
                  sid ''assistant'' ''Order ORD-1234 not found. Please check the order ID.'')"
    using a route_and_compose_message [OF r m c] by (simp add: process_message_def)
next
  show "classify_intent None ''Where is my order ORD-1234?'' = ''order_status''"
    by (simp add: classify_intent_def order_question_intent)
qed

theorem message_bag_returned_verbatim_witness:
  "classify_intent (llm offline_env) ''Where is my order ORD-1234?'' = ''order_status''
   \<and> get_order (orders offline_env) ''ORD-1234'' = None
   \<and> process_message offline_env init_orch ''Where is my order ORD-1234?'' ''s1''
       = (\<lparr>resp_response = ''Order ORD-1234 not found. Please check the order ID.'',
           resp_intent = ''order_status'', resp_sources = Some [],
           resp_metadata = Some []\<rparr>,
          add_to_history (add_to_history init_orch ''s1'' ''user'' ''Where is my order ORD-1234?'')
            ''s1'' ''assistant'' ''Order ORD-1234 not found. Please check the order ID.'')"
proof -
  have 1: "classify_intent (llm offline_env) ''Where is my order ORD-1234?'' = ''order_status''"
    by (simp add: offline_env_def classify_intent_def order_question_intent)
  have 2: "get_order (orders offline_env) ''ORD-1234'' = None"
    by (simp add: offline_env_def)
  from message_bag_returned_verbatim [of _ _ offline_env init_orch _ _ "''s1''"] 1 2
  show ?thesis by blast
qed

subsection \<open>Order identifiers and the clarification\<close>

lemma clarification_turn:
  assumes "classify_intent (llm e) message = ''order_status''" and "extract_order_id message = []"
  shows "process_message e st message sid
     = (\<lparr>resp_response = ''Please provide your order ID (format: ORD-XXXX) to check status.'',
         resp_intent = ''order_status'', resp_sources = Some [], resp_metadata = Some []\<rparr>,
        add_to_history (add_to_history st sid ''user'' message) sid ''assistant''
          ''Please provide your order ID (format: ORD-XXXX) to check status.'')"
proof -
  let ?d = "clarification ''check status''"
  have r: "route_to_handler e ''order_status'' message = Inr ?d"
    using assms(2) by (simp add: route_to_handler_def handle_order_status_def)
  have m: "bag_message ?d = Some ''Please provide your order ID (format: ORD-XXXX) to check status.''"
    by (simp add: clarification_def)
  have c: "ChatResponse ''Please provide your order ID (format: ORD-XXXX) to check status.''
            ''order_status''
            (case bag_sources ?d of None \<Rightarrow> Some [] | Some s \<Rightarrow> s)
            (case bag_metadata ?d of None \<Rightarrow> Some [] | Some m \<Rightarrow> Some m)
     = Inr \<lparr>resp_response = ''Please provide your order ID (format: ORD-XXXX) to check status.'',
         resp_intent = ''order_status'', resp_sources = Some [], resp_metadata = Some []\<rparr>"
    by (simp add: ChatResponse_def clarification_def empty_bag_def)
  show ?thesis
    using assms(1) route_and_compose_message [OF r m c] by (simp add: process_message_def)
qed

lemma ord_keyword:
  "contains (lower message) ''ord-'' \<Longrightarrow> simple_intent_classification message = ''order_status''"
  by (simp add: simple_intent_classification_def Let_def any_in_def order_words_def)

text \<open>
  Claim C10. \<open>extract_order_id\<close> returns the empty string exactly when the pattern
  (upper-case ORD-, then four digits) matches at no position; otherwise it returns the
  eight characters of the leftmost match. A message that has the keyword ord- in lower
  case but no match is classified as order_status by the keyword fallback and answered
  with the request for an order ID.
\<close>

theorem extract_order_id_first_match:
  "(extract_order_id message = [] \<longleftrightarrow> (\<forall>k \<le> length message. \<not> order_id_at (drop k message)))
   \<and> (extract_order_id message \<noteq> [] \<longrightarrow>
        (\<exists>k. k + 8 \<le> length message
            \<and> extract_order_id message = take 8 (drop k message)
            \<and> order_id_at (drop k message)
            \<and> (\<forall>j < k. \<not> order_id_at (drop j message))))
   \<and> (llm e = None \<and> contains (lower message) ''ord-'' \<and> extract_order_id message = [] \<longrightarrow>
        process_message e st message sid
          = (\<lparr>resp_response = ''Please provide your order ID (format: ORD-XXXX) to check status.'',
              resp_intent = ''order_status'', resp_sources = Some [], resp_metadata = Some []\<rparr>,
             add_to_history (add_to_history st sid ''user'' message) sid ''assistant''
               ''Please provide your order ID (format: ORD-XXXX) to check status.''))"
proof (intro conjI impI)
  show "extract_order_id message = [] \<longleftrightarrow> (\<forall>k \<le> length message. \<not> order_id_at (drop k message))"
  proof (cases "findall_order_ids message")
    case Nil
    then show ?thesis
      using findall_empty_iff [of message] by (simp add: extract_order_id_def)
  next
    case (Cons x xs)
    from findall_first [OF Cons] obtain k where
      k: "k + 8 \<le> length message" "x = take 8 (drop k message)" "order_id_at (drop k message)"
      by blast
    from k(1,2) have "x \<noteq> []" by auto
    moreover from k(1) have "k \<le> length message" by simp
    ultimately show ?thesis
      using Cons k(3) by (auto simp: extract_order_id_def)
  qed
next
  assume "extract_order_id message \<noteq> []"
  then obtain x xs where f: "findall_order_ids message = x # xs" and x: "extract_order_id message = x"
    by (auto simp: extract_order_id_def split: list.splits)
  from findall_first [OF f] x
  show "\<exists>k. k + 8 \<le> length message
            \<and> extract_order_id message = take 8 (drop k message)
            \<and> order_id_at (drop k message)
            \<and> (\<forall>j < k. \<not> order_id_at (drop j message))"
    by simp
next
  assume a: "llm e = None \<and> contains (lower message) ''ord-'' \<and> extract_order_id message = []"
  then have "classify_intent (llm e) message = ''order_status''"
    by (simp add: classify_intent_def ord_keyword)
  with a show "process_message e st message sid
          = (\<lparr>resp_response = ''Please provide your order ID (format: ORD-XXXX) to check status.'',
              resp_intent = ''order_status'', resp_sources = Some [], resp_metadata = Some []\<rparr>,
             add_to_history (add_to_history st sid ''user'' message) sid ''assistant''
               ''Please provide your order ID (format: ORD-XXXX) to check status.'')"
    using clarification_turn by blast
qed

lemma lowercase_id_facts:
  "extract_order_id ''ord-1234'' = []" "contains (lower ''ord-1234'') ''ord-''"
  "extract_order_id ''see ORD-12345 and ORD-7777'' = ''ORD-1234''"
  by code_simp+

theorem extract_order_id_first_match_witness:
  "llm offline_env = None \<and> contains (lower ''ord-1234'') ''ord-''
   \<and> extract_order_id ''ord-1234'' = []
   \<and> extract_order_id ''see ORD-12345 and ORD-7777'' = ''ORD-1234''
   \<and> process_message offline_env init_orch ''ord-1234'' ''s1''
       = (\<lparr>resp_response = ''Please provide your order ID (format: ORD-XXXX) to check status.'',
           resp_intent = ''order_status'', resp_sources = Some [], resp_metadata = Some []\<rparr>,
          add_to_history (add_to_history init_orch ''s1'' ''user'' ''ord-1234'') ''s1'' ''assistant''
            ''Please provide your order ID (format: ORD-XXXX) to check status.'')"
proof -
  have 1: "llm offline_env = None" by (simp add: offline_env_def)
  from extract_order_id_first_match [of "''ord-1234''" offline_env init_orch "''s1''"]
    1 lowercase_id_facts
  show ?thesis by blast
qed

subsection \<open>A failing classifier call\<close>

lemma fallback_not_intent: "lower (strip fallback_response) \<notin> set valid_intents"
proof -
  have "length (lower (strip fallback_response)) = 160"
    by (simp add: fallback_response_def strip_def lower_def is_space_def)
  moreover have "\<forall>i \<in> set valid_intents. length i < 160"
    by (simp add: valid_intents_def)
  ultimately show ?thesis by force
qed

lemma classify_failure:
  assumes "client = Some c"
    and "c [\<lparr>role = ''system'', content = classifier_prompt\<rparr>,
            \<lparr>role = ''user'', content = message\<rparr>] 50 = Inl err"
  shows "classify_intent client message = ''general''"
  using assms fallback_not_intent
  by (simp add: classify_intent_def llm_generate_response_def Let_def)

lemma generate_with_history_composed:
  "composed (snd (generate_with_history e st messages n)) = composed st @ [messages]"
  by (simp add: generate_with_history_def Let_def split: option.splits sum.splits)

lemma str_items_titles:
  "list_all (\<lambda>v. \<exists>s. v = JStr s) vs \<Longrightarrow> \<exists>ss. str_items vs = Inr ss"
  by (induction vs) auto

lemma general_turn:
  assumes "retrieve e message 2 = Inr rs"
  shows "length (composed (snd (route_and_compose e st1 ''general'' message sid)))
           = Suc (length (composed st1))"
    and "\<exists>ans. last (conversations (snd (route_and_compose e st1 ''general'' message sid)) sid)
           = \<lparr>role = ''assistant'', content = ans\<rparr>"
    and "list_all (\<lambda>(t, meta, score). \<exists>s. title_of ''Information'' meta = JStr s) rs
           \<Longrightarrow> resp_intent (fst (route_and_compose e st1 ''general'' message sid)) = ''general''"
proof -
  define d where "d = empty_bag\<lparr>bag_context :=
        Some (concat (map (\<lambda>(t, meta, score). t @ [CHR 0x0A, CHR 0x0A]) rs)),
      bag_sources := Some (if map (\<lambda>(t, meta, score). title_of ''Information'' meta) rs \<noteq> []
         then Some (map (\<lambda>(t, meta, score). title_of ''Information'' meta) rs) else None),
      bag_metadata := Some []\<rparr>"
  have r: "route_to_handler e ''general'' message = Inr d"
    using assms by (simp add: route_to_handler_def handle_general_def d_def Let_def)
  have nm: "bag_message d = None" "bag_success d = None"
    by (simp_all add: d_def empty_bag_def)
  obtain ans st2 where g: "generate_response e st1 ''general'' message d sid = (ans, st2)"
    by (cases "generate_response e st1 ''general'' message d sid")
  have c2: "length (composed st2) = Suc (length (composed st1))"
  proof -
    from g nm obtain msgs where "generate_with_history e st1 msgs 500 = (ans, st2)"
      by (auto simp: generate_response_def Let_def)
    then have "composed st2 = composed st1 @ [msgs]"
      using generate_with_history_composed [of e st1 msgs 500] by simp
    then show ?thesis by simp
  qed
  have s: "snd (route_and_compose e st1 ''general'' message sid)
            = add_to_history st2 sid ''assistant'' ans"
    using r g by (simp add: route_and_compose_def Let_def split: sum.splits)
  show "length (composed (snd (route_and_compose e st1 ''general'' message sid)))
           = Suc (length (composed st1))"
    by (simp add: s c2)
  show "\<exists>ans. last (conversations (snd (route_and_compose e st1 ''general'' message sid)) sid)
           = \<lparr>role = ''assistant'', content = ans\<rparr>"
    using add_to_history_last [of st2 sid "''assistant''" "ans"] by (auto simp: s)
  assume t: "list_all (\<lambda>(t, meta, score). \<exists>s. title_of ''Information'' meta = JStr s) rs"
  then have "list_all (\<lambda>v. \<exists>s. v = JStr s)
               (map (\<lambda>(t, meta, score). title_of ''Information'' meta) rs)"
    by (induction rs) auto
  then obtain ss where ss: "str_items (map (\<lambda>(t, meta, score). title_of ''Information'' meta) rs) = Inr ss"
    using str_items_titles by blast
  have "\<exists>resp. ChatResponse ans ''general''
            (case bag_sources d of None \<Rightarrow> Some [] | Some s \<Rightarrow> s)
            (case bag_metadata d of None \<Rightarrow> Some [] | Some m \<Rightarrow> Some m) = Inr resp"
    using ss by (simp add: d_def empty_bag_def ChatResponse_def)
  then obtain resp where c: "ChatResponse ans ''general''
            (case bag_sources d of None \<Rightarrow> Some [] | Some s \<Rightarrow> s)
            (case bag_metadata d of None \<Rightarrow> Some [] | Some m \<Rightarrow> Some m) = Inr resp" ..
  then have "fst (route_and_compose e st1 ''general'' message sid) = resp"
    using r g by (simp add: route_and_compose_def Let_def)
  with ChatResponse_fields [OF c]
  show "resp_intent (fst (route_and_compose e st1 ''general'' message sid)) = ''general''"
    by simp
qed

text \<open>
  Claim C3, as the code has it. When the call of the external model raises during
  classification, the intent is general and the turn goes on with it: the general handler
  is the route. Once the retrieval of that handler returns, the composition step is called
  once, the assistant turn is recorded, and the response carries the intent general when
  the retrieved titles are strings.
\<close>

theorem classifier_failure_continues:
  assumes "llm e = Some c"
    and "c [\<lparr>role = ''system'', content = classifier_prompt\<rparr>,
            \<lparr>role = ''user'', content = message\<rparr>] 50 = Inl err"
  shows "classify_intent (llm e) message = ''general''
     \<and> process_message e st message sid
         = route_and_compose e (add_to_history st sid ''user'' message) ''general'' message sid
     \<and> route_to_handler e ''general'' message = handle_general e message
     \<and> (\<forall>rs. retrieve e message 2 = Inr rs \<longrightarrow>
           length (composed (snd (process_message e st message sid))) = Suc (length (composed st))
           \<and> (\<exists>ans. last (conversations (snd (process_message e st message sid)) sid)
                  = \<lparr>role = ''assistant'', content = ans\<rparr>)
           \<and> (list_all (\<lambda>(t, meta, score). \<exists>s. title_of ''Information'' meta = JStr s) rs
                \<longrightarrow> resp_intent (fst (process_message e st message sid)) = ''general''))"
proof -
  have g: "classify_intent (llm e) message = ''general''"
    using assms by (rule classify_failure)
  then have p: "process_message e st message sid
         = route_and_compose e (add_to_history st sid ''user'' message) ''general'' message sid"
    by (simp add: process_message_def)
  have h: "route_to_handler e ''general'' message = handle_general e message"
    by (simp add: route_to_handler_def)
  have "length (composed (snd (process_message e st message sid))) = Suc (length (composed st))
           \<and> (\<exists>ans. last (conversations (snd (process_message e st message sid)) sid)
                  = \<lparr>role = ''assistant'', content = ans\<rparr>)
           \<and> (list_all (\<lambda>(t, meta, score). \<exists>s. title_of ''Information'' meta = JStr s) rs
                \<longrightarrow> resp_intent (fst (process_message e st message sid)) = ''general'')"
    if r: "retrieve e message 2 = Inr rs" for rs
    using general_turn [OF r, of "add_to_history st sid ''user'' message" sid]
    unfolding p by simp
  with g p h show ?thesis by blast
qed

lemma failing_env_facts:
  "llm failing_llm_env = Some failing_llm"
  "failing_llm [\<lparr>role = ''system'', content = classifier_prompt\<rparr>,
            \<lparr>role = ''user'', content = ''Where is my order ORD-1234?''\<rparr>] 50
     = Inl (Error ExternalError ''connection refused'')"
  "retrieve failing_llm_env ''Where is my order ORD-1234?'' 2 = Inr []"
  by (simp_all add: failing_llm_env_def offline_env_def failing_llm_def)

theorem classifier_failure_continues_witness:
  "llm failing_llm_env = Some failing_llm
   \<and> failing_llm [\<lparr>role = ''system'', content = classifier_prompt\<rparr>,
            \<lparr>role = ''user'', content = ''Where is my order ORD-1234?''\<rparr>] 50
       = Inl (Error ExternalError ''connection refused'')
   \<and> classify_intent (llm failing_llm_env) ''Where is my order ORD-1234?'' = ''general''
   \<and> length (composed (snd (process_message failing_llm_env init_orch
                               ''Where is my order ORD-1234?'' ''s1'')))
       = Suc (length (composed init_orch))
   \<and> resp_intent (fst (process_message failing_llm_env init_orch
                         ''Where is my order ORD-1234?'' ''s1'')) = ''general''"
proof -
  from classifier_failure_continues [OF failing_env_facts(1,2), of init_orch "''s1''"]
    failing_env_facts(3)
  have "classify_intent (llm failing_llm_env) ''Where is my order ORD-1234?'' = ''general''"
    and "length (composed (snd (process_message failing_llm_env init_orch
                               ''Where is my order ORD-1234?'' ''s1'')))
       = Suc (length (composed init_orch))"
    and "resp_intent (fst (process_message failing_llm_env init_orch
                         ''Where is my order ORD-1234?'' ''s1'')) = ''general''"
    by auto
  with failing_env_facts(1,2) show ?thesis by blast
qed

text \<open>
  The turn does not always reach the composition. The general handler calls the retrieval
  without a guard, so when the embedding service is out of reach together with the
  external model, the turn ends right after the classification: the caller gets the
  apology with the intent error, and no composition call is made.
\<close>

theorem classifier_and_retrieval_failure_counterexample:
  "llm all_down_env = Some failing_llm
   \<and> failing_llm [\<lparr>role = ''system'', content = classifier_prompt\<rparr>,
            \<lparr>role = ''user'', content = ''hello there''\<rparr>] 50
       = Inl (Error ExternalError ''connection refused'')
   \<and> process_message all_down_env init_orch ''hello there'' ''s1''
       = (error_response (Error ExternalError ''embedding service down''),
          add_to_history init_orch ''s1'' ''user'' ''hello there'')
   \<and> resp_intent (fst (process_message all_down_env init_orch ''hello there'' ''s1'')) = ''error''
   \<and> composed (snd (process_message all_down_env init_orch ''hello there'' ''s1'')) = []"
proof -
  have l: "llm all_down_env = Some failing_llm"
    by (simp add: all_down_env_def)
  have f: "failing_llm [\<lparr>role = ''system'', content = classifier_prompt\<rparr>,
            \<lparr>role = ''user'', content = ''hello there''\<rparr>] 50
       = Inl (Error ExternalError ''connection refused'')"
    by (simp add: failing_llm_def)
  have c: "classify_intent (llm all_down_env) ''hello there'' = ''general''"
    using l f by (rule classify_failure)
  have r: "route_to_handler all_down_env ''general'' ''hello there''
       = Inl (Error ExternalError ''embedding service down'')"
    by (simp add: all_down_env_def broken_retrieval_env_def offline_env_def
          route_to_handler_def handle_general_def)
  have p: "process_message all_down_env init_orch ''hello there'' ''s1''
       = (error_response (Error ExternalError ''embedding service down''),
          add_to_history init_orch ''s1'' ''user'' ''hello there'')"
    by (simp add: process_message_def c route_and_compose_def r)
  show ?thesis
    unfolding p using l f by (simp add: error_response_def init_orch_def)
qed

subsection \<open>Failures after the user turn\<close>

text \<open>
  Claim C9, as the code has it. When the handler that the intent is routed to raises,
  \<open>process_message\<close> returns the apology with the intent error, and the state is the
  one right after the user turn was appended: the log of the session ends with the user
  message.
\<close>

theorem routing_failure_keeps_user_turn:
  "route_to_handler e (classify_intent (llm e) message) message = Inl err \<Longrightarrow>
     process_message e st message sid
       = (error_response err, add_to_history st sid ''user'' message)
     \<and> resp_response (error_response err) = apology
     \<and> resp_intent (error_response err) = ''error''
     \<and> last (conversations (snd (process_message e st message sid)) sid)
         = \<lparr>role = ''user'', content = message\<rparr>"
  using add_to_history_last [of st sid "''user''" message]
  by (simp add: process_message_def route_and_compose_def error_response_def)

lemma hello_general: "simple_intent_classification ''hello there'' = ''general''"
  by code_simp

theorem routing_failure_keeps_user_turn_witness:
  "route_to_handler broken_retrieval_env
       (classify_intent (llm broken_retrieval_env) ''hello there'') ''hello there''
     = Inl (Error ExternalError ''embedding service down'')
   \<and> process_message broken_retrieval_env init_orch ''hello there'' ''s1''
       = (error_response (Error ExternalError ''embedding service down''),
          add_to_history init_orch ''s1'' ''user'' ''hello there'')"
proof -
  have r: "route_to_handler broken_retrieval_env
       (classify_intent (llm broken_retrieval_env) ''hello there'') ''hello there''
     = Inl (Error ExternalError ''embedding service down'')"
    by (simp add: broken_retrieval_env_def offline_env_def classify_intent_def hello_general
          route_to_handler_def handle_general_def)
  from routing_failure_keeps_user_turn [OF r, of init_orch "''s1''"] r
  show ?thesis by simp
qed

text \<open>
  An exception can also come after the assistant turn is recorded. With a retrieved chunk
  whose title is \<^verbatim>\<open>None\<close>, the list of sources is not a list of strings, the
  construction of \<^verbatim>\<open>ChatResponse\<close> raises, and the caller gets the apology with
  the intent error while the log already ends with the assistant turn.
\<close>

theorem late_failure_counterexample:
  "fst (process_message untitled_env init_orch ''hello there'' ''s1'')
     = error_response (Error ValidationError ''sources: str type expected'')
   \<and> resp_intent (fst (process_message untitled_env init_orch ''hello there'' ''s1'')) = ''error''
   \<and> conversations (snd (process_message untitled_env init_orch ''hello there'' ''s1'')) ''s1''
       = [\<lparr>role = ''user'', content = ''hello there''\<rparr>,
          \<lparr>role = ''assistant'', content = fallback_response\<rparr>]"
proof -
  have c: "classify_intent (llm untitled_env) ''hello there'' = ''general''"
    by (simp add: untitled_env_def offline_env_def classify_intent_def hello_general)
  have r: "route_to_handler untitled_env ''general'' ''hello there''
      = Inr (empty_bag\<lparr>bag_context := Some (''Our stores open at nine.'' @ [CHR 0x0A, CHR 0x0A]),
               bag_sources := Some (Some [JNone]), bag_metadata := Some []\<rparr>)"
    by (simp add: untitled_env_def offline_env_def route_to_handler_def handle_general_def
          title_of_def dict_get_def)
  have p: "process_message untitled_env init_orch ''hello there'' ''s1''
     = (error_response (Error ValidationError ''sources: str type expected''),
        add_to_history
          ((add_to_history init_orch ''s1'' ''user'' ''hello there'')
             \<lparr>composed := [[\<lparr>role = ''system'', content = persona\<rparr>,
                \<lparr>role = ''user'', content = ''hello there''\<rparr>,
                \<lparr>role = ''system'', content = ''Context for answering:'' @ [CHR 0x0A]
                   @ ''Relevant Information:'' @ [CHR 0x0A]
                   @ ''Our stores open at nine.'' @ [CHR 0x0A, CHR 0x0A]\<rparr>,
                \<lparr>role = ''user'', content = ''hello there''\<rparr>]]\<rparr>)
          ''s1'' ''assistant'' fallback_response)"
    unfolding process_message_def Let_def c route_and_compose_def r
    by (simp add: generate_response_def generate_with_history_def empty_bag_def
          context_parts_of_def get_recent_history_def ChatResponse_def Let_def
          add_to_history_def init_orch_def untitled_env_def offline_env_def last_n_def)
  show ?thesis
    unfolding p by (simp add: error_response_def add_to_history_def init_orch_def Let_def)
qed

end
